theory Spec2Isabelle
  imports Complex_Main
begin

section \<open>JavaScript numbers\<close>

text \<open>
  A JavaScript number is an IEEE double. The finite ones are modelled as mathematical
  reals (so rounding, overflow to infinity and the sign of zero are outside the model);
  \<open>NaN\<close>, \<open>Infinity\<close> and \<open>-Infinity\<close> are values of their own, because the code
  under study tells them apart (\<open>x || 0\<close>, \<open>i < length\<close>).
\<close>

datatype jsnum = NaN | PInf | NInf | Fin real

fun js_neg :: "jsnum \<Rightarrow> jsnum" where
  "js_neg NaN = NaN"
| "js_neg PInf = NInf"
| "js_neg NInf = PInf"
| "js_neg (Fin a) = Fin (- a)"

fun js_add :: "jsnum \<Rightarrow> jsnum \<Rightarrow> jsnum" where
  "js_add (Fin a) (Fin b) = Fin (a + b)"
| "js_add NaN _ = NaN"
| "js_add _ NaN = NaN"
| "js_add PInf NInf = NaN"
| "js_add NInf PInf = NaN"
| "js_add PInf _ = PInf"
| "js_add NInf _ = NInf"
| "js_add _ PInf = PInf"
| "js_add _ NInf = NInf"

definition js_sub :: "jsnum \<Rightarrow> jsnum \<Rightarrow> jsnum" where
  "js_sub a b = js_add a (js_neg b)"

fun js_mul :: "jsnum \<Rightarrow> jsnum \<Rightarrow> jsnum" where
  "js_mul (Fin a) (Fin b) = Fin (a * b)"
| "js_mul NaN _ = NaN"
| "js_mul _ NaN = NaN"
| "js_mul (Fin a) PInf = (if a = 0 then NaN else if 0 < a then PInf else NInf)"
| "js_mul (Fin a) NInf = (if a = 0 then NaN else if 0 < a then NInf else PInf)"
| "js_mul PInf (Fin b) = (if b = 0 then NaN else if 0 < b then PInf else NInf)"
| "js_mul NInf (Fin b) = (if b = 0 then NaN else if 0 < b then NInf else PInf)"
| "js_mul PInf PInf = PInf"
| "js_mul PInf NInf = NInf"
| "js_mul NInf PInf = NInf"
| "js_mul NInf NInf = PInf"

text \<open>\<open>Math.floor\<close> and \<open>Math.sin\<close>.\<close>

fun js_floor :: "jsnum \<Rightarrow> jsnum" where
  "js_floor (Fin a) = Fin (of_int \<lfloor>a\<rfloor>)"
| "js_floor x = x"

fun js_sin :: "jsnum \<Rightarrow> jsnum" where
  "js_sin (Fin a) = Fin (sin a)"
| "js_sin x = NaN"

text \<open>The comparison \<open>a < b\<close>: false as soon as one side is \<open>NaN\<close>.\<close>

fun js_lt :: "jsnum \<Rightarrow> jsnum \<Rightarrow> bool" where
  "js_lt (Fin a) (Fin b) = (a < b)"
| "js_lt NaN _ = False"
| "js_lt _ NaN = False"
| "js_lt PInf _ = False"
| "js_lt _ NInf = False"
| "js_lt _ PInf = True"
| "js_lt NInf _ = True"

text \<open>Truthiness of a number: only \<open>NaN\<close> and zero are falsy. \<open>or0 x\<close> is \<open>x || 0\<close>.\<close>

fun js_truthy :: "jsnum \<Rightarrow> bool" where
  "js_truthy NaN = False"
| "js_truthy (Fin a) = (a \<noteq> 0)"
| "js_truthy PInf = True"
| "js_truthy NInf = True"

definition or0 :: "jsnum \<Rightarrow> jsnum" where
  "or0 x = (if js_truthy x then x else Fin 0)"

text \<open>
  Reading \<open>xs[index]\<close> from an array: an element when the index is an integer within
  the array, \<open>undefined\<close> (\<open>None\<close>) otherwise.
\<close>

definition array_get :: "'a list \<Rightarrow> jsnum \<Rightarrow> 'a option" where
  "array_get xs idx =
     (case idx of
        Fin r \<Rightarrow>
          (if r = of_int \<lfloor>r\<rfloor> \<and> 0 \<le> r \<and> r < real (length xs)
           then Some (xs ! nat \<lfloor>r\<rfloor>) else None)
      | _ \<Rightarrow> None)"

section \<open>utilities/maths.ts\<close>

text \<open>\<open>clampRandom(value, min, max) = Math.floor(value * (max - min + 1)) + min\<close>.\<close>

definition clampRandom :: "jsnum \<Rightarrow> jsnum \<Rightarrow> jsnum \<Rightarrow> jsnum" where
  "clampRandom v minv maxv =
     js_add (js_floor (js_mul v (js_add (js_sub maxv minv) (Fin 1)))) minv"

text \<open>
  \<open>seededNumberGenerator(seed)\<close> returns a closure over the variable \<open>currentSeed\<close>.
  One call of the closure is \<open>seeded_next\<close>: it takes the variable's value and returns
  the number drawn together with the variable's new value. The sine, the product and
  the difference are those of the reals: the numbers drawn are the code's only where
  its double arithmetic is exact (as at the seed 0), and the range \<open>[0, 1)\<close>, which every
  draw has over the reals, is not taken from here: where a statement needs it of the
  draws, it assumes it of them (\<open>unit_gen\<close> below).
\<close>

definition seeded_next :: "jsnum \<Rightarrow> jsnum \<times> jsnum" where
  "seeded_next currentSeed =
     (let s1 = js_mul (js_sin currentSeed) (Fin 10000);
          s2 = js_sub s1 (js_floor s1)
      in (s2, s2))"

text \<open>
  The component's field \<open>generateNumber\<close> holds either that closure or
  \<open>() => Math.random()\<close>. \<open>Math.random\<close> is modelled by an entropy source, a sequence
  of reals of which the next unread position is kept.
\<close>

datatype numgen = Seeded jsnum | MathRandom "nat \<Rightarrow> real" nat

fun generateNumber :: "numgen \<Rightarrow> jsnum \<times> numgen" where
  "generateNumber (Seeded s) = (case seeded_next s of (v, s') \<Rightarrow> (v, Seeded s'))"
| "generateNumber (MathRandom f k) = (Fin (f k), MathRandom f (Suc k))"

text \<open>The first \<open>n\<close> numbers a generator draws, and the generator after \<open>n\<close> draws.\<close>

fun draws :: "nat \<Rightarrow> numgen \<Rightarrow> jsnum list" where
  "draws 0 g = []"
| "draws (Suc n) g = (case generateNumber g of (v, g') \<Rightarrow> v # draws n g')"

fun advance :: "nat \<Rightarrow> numgen \<Rightarrow> numgen" where
  "advance 0 g = g"
| "advance (Suc n) g = advance n (snd (generateNumber g))"

text \<open>
  A generator all of whose future draws are finite numbers in \<open>[0, 1)\<close>, the contract of
  \<open>Math.random\<close>: the condition is on the numbers drawn, whatever the generator is.
\<close>

definition unit_gen :: "numgen \<Rightarrow> bool" where
  "unit_gen g =
     (\<forall>n. case fst (generateNumber (advance n g)) of
             Fin r \<Rightarrow> 0 \<le> r \<and> r < 1
           | _ \<Rightarrow> False)"

section \<open>JavaScript strings\<close>

text \<open>
  Strings are lists of characters with codes below 256. \<open>toUpperCase\<close> is modelled on
  the ASCII letters and leaves every other character as it is.
\<close>

definition str_includes :: "string \<Rightarrow> char \<Rightarrow> bool" where
  "str_includes s c = (c \<in> set s)"

text \<open>\<open>s.split(c)\<close> for a separator of one character; \<open>''.split(c)\<close> is \<open>['']\<close>.\<close>

fun split_chr :: "char \<Rightarrow> string \<Rightarrow> string list" where
  "split_chr c [] = [[]]"
| "split_chr c (x # xs) =
     (if x = c then [] # split_chr c xs
      else (case split_chr c xs of [] \<Rightarrow> [[x]] | r # rs \<Rightarrow> (x # r) # rs))"

fun nth_opt :: "'a list \<Rightarrow> nat \<Rightarrow> 'a option" where
  "nth_opt [] i = None"
| "nth_opt (x # xs) 0 = Some x"
| "nth_opt (x # xs) (Suc i) = nth_opt xs i"

definition is_ws :: "char \<Rightarrow> bool" where
  "is_ws c = ((of_char c :: nat) \<in> {9, 10, 11, 12, 13, 32, 160})"

definition trim :: "string \<Rightarrow> string" where
  "trim s = rev (dropWhile is_ws (rev (dropWhile is_ws s)))"

definition is_lower :: "char \<Rightarrow> bool" where
  "is_lower c = (97 \<le> (of_char c :: nat) \<and> (of_char c :: nat) \<le> 122)"

definition is_upper :: "char \<Rightarrow> bool" where
  "is_upper c = (65 \<le> (of_char c :: nat) \<and> (of_char c :: nat) \<le> 90)"

definition toUpperCase_chr :: "char \<Rightarrow> char" where
  "toUpperCase_chr c = (if is_lower c then char_of ((of_char c :: nat) - 32) else c)"

text \<open>\<open>s.charAt(0).toUpperCase() + s.slice(1)\<close>.\<close>

definition capitalize_first :: "string \<Rightarrow> string" where
  "capitalize_first s = map toUpperCase_chr (take 1 s) @ drop 1 s"

text \<open>\<open>words.join(sep)\<close>.\<close>

fun join :: "string \<Rightarrow> string list \<Rightarrow> string" where
  "join sep [] = []"
| "join sep [w] = w"
| "join sep (w # v # ws) = w @ sep @ join sep (v # ws)"

subsection \<open>\<open>Number(string)\<close>\<close>

text \<open>
  The conversion of a string to a number: white space is trimmed, the empty string is 0,
  a decimal literal (optional sign, digits, optional fraction, optional exponent),
  \<open>Infinity\<close> with an optional sign, or an unsigned literal in base 16, 8 or 2 gives its
  value, and any other text gives \<open>NaN\<close>. The value is the literal's exact value: it is
  the code's where a double holds it exactly (every integer below \<open>2^53\<close> in absolute
  value), and differs where the code rounds it or takes it for infinite.
\<close>

definition is_digit :: "char \<Rightarrow> bool" where
  "is_digit c = (48 \<le> (of_char c :: nat) \<and> (of_char c :: nat) \<le> 57)"

definition digit_val :: "char \<Rightarrow> nat" where
  "digit_val c =
     (let k = (of_char c :: nat) in
      if 48 \<le> k \<and> k \<le> 57 then k - 48
      else if 97 \<le> k \<and> k \<le> 102 then k - 87
      else if 65 \<le> k \<and> k \<le> 70 then k - 55
      else 16)"

definition digits_val :: "nat \<Rightarrow> string \<Rightarrow> nat" where
  "digits_val base s = foldl (\<lambda>a c. base * a + digit_val c) 0 s"

definition all_digits :: "nat \<Rightarrow> string \<Rightarrow> bool" where
  "all_digits base s = (s \<noteq> [] \<and> list_all (\<lambda>c. digit_val c < base) s)"

definition exponent_part :: "string \<Rightarrow> int option" where
  "exponent_part s =
     (case s of
        [] \<Rightarrow> Some 0
      | c # r \<Rightarrow>
          if c = CHR ''e'' \<or> c = CHR ''E'' then
            (case r of
               [] \<Rightarrow> None
             | d # r' \<Rightarrow>
                 if d = CHR ''+'' then
                   (if all_digits 10 r' then Some (int (digits_val 10 r')) else None)
                 else if d = CHR ''-'' then
                   (if all_digits 10 r' then Some (- int (digits_val 10 r')) else None)
                 else (if all_digits 10 r then Some (int (digits_val 10 r)) else None))
          else None)"

definition unsigned_decimal :: "string \<Rightarrow> jsnum" where
  "unsigned_decimal s =
     (if s = ''Infinity'' then PInf
      else
        let ip = takeWhile is_digit s;
            r1 = dropWhile is_digit s;
            fp = (case r1 of c # r \<Rightarrow> if c = CHR ''.'' then takeWhile is_digit r else [] | [] \<Rightarrow> []);
            r2 = (case r1 of c # r \<Rightarrow> if c = CHR ''.'' then dropWhile is_digit r else r1 | [] \<Rightarrow> [])
        in if ip = [] \<and> fp = [] then NaN
           else
             (case exponent_part r2 of
                None \<Rightarrow> NaN
              | Some e \<Rightarrow>
                  Fin ((real (digits_val 10 ip) + real (digits_val 10 fp) / 10 ^ length fp)
                       * 10 powi e)))"

definition non_decimal :: "string \<Rightarrow> jsnum option" where
  "non_decimal s =
     (case s of
        c0 # c1 # r \<Rightarrow>
          if c0 = CHR ''0'' \<and> (c1 = CHR ''x'' \<or> c1 = CHR ''X'') then
            Some (if all_digits 16 r then Fin (real (digits_val 16 r)) else NaN)
          else if c0 = CHR ''0'' \<and> (c1 = CHR ''o'' \<or> c1 = CHR ''O'') then
            Some (if all_digits 8 r then Fin (real (digits_val 8 r)) else NaN)
          else if c0 = CHR ''0'' \<and> (c1 = CHR ''b'' \<or> c1 = CHR ''B'') then
            Some (if all_digits 2 r then Fin (real (digits_val 2 r)) else NaN)
          else None
      | _ \<Rightarrow> None)"

definition Number :: "string \<Rightarrow> jsnum" where
  "Number str =
     (let s = trim str in
      if s = [] then Fin 0
      else
        (case non_decimal s of
           Some v \<Rightarrow> v
         | None \<Rightarrow>
             (case s of
                c # r \<Rightarrow>
                  if c = CHR ''+'' then unsigned_decimal r
                  else if c = CHR ''-'' then js_neg (unsigned_decimal r)
                  else unsigned_decimal s
              | [] \<Rightarrow> Fin 0)))"

text \<open>\<open>Number(x)\<close> for a value that may be \<open>undefined\<close>: \<open>Number(undefined)\<close> is \<open>NaN\<close>.\<close>

definition Number_opt :: "string option \<Rightarrow> jsnum" where
  "Number_opt x = (case x of None \<Rightarrow> NaN | Some s \<Rightarrow> Number s)"

section \<open>components/lorem/lorem.ts\<close>

text \<open>
  The properties of the component. \<open>length\<close>, \<open>wordsPerSentence\<close> and
  \<open>sentencesPerParagraph\<close> have type \<open>number | string\<close>; \<open>seed\<close> is a number that may be
  left undefined.
\<close>

datatype sizespec = SNum jsnum | SStr string

datatype shape = Sentence | Title | Paragraph | Dl | Ol | Ul

record config =
  type :: shape
  length_p :: sizespec
  seed :: "jsnum option"
  wordsPerSentence :: sizespec
  sentencesPerParagraph :: sizespec

text \<open>The values the class gives its properties when none is set.\<close>

definition default_config :: config where
  "default_config =
     \<lparr> type = Paragraph, length_p = SStr ''3-5'', seed = None,
       wordsPerSentence = SStr ''4-16'', sentencesPerParagraph = SStr ''3-6'' \<rparr>"

fun getNumberWithinRange :: "sizespec \<Rightarrow> numgen \<Rightarrow> jsnum \<times> numgen" where
  "getNumberWithinRange (SNum rng) g = (or0 rng, g)"
| "getNumberWithinRange (SStr rng) g =
     (if \<not> str_includes rng CHR ''-'' then (or0 (Number rng), g)
      else
        let parsedRange = split_chr CHR ''-'' rng;
            minv = or0 (Number_opt (nth_opt parsedRange 0));
            maxv = or0 (Number_opt (nth_opt parsedRange 1))
        in (case generateNumber g of (v, g') \<Rightarrow> (clampRandom v minv maxv, g')))"

text \<open>
  What a call can do besides returning: throw a \<open>TypeError\<close> (a method called on
  \<open>undefined\<close>), or never return (a counting loop whose bound is \<open>Infinity\<close>). A throw
  is \<open>Inl\<close>, a call that does not return is \<open>None\<close>.
\<close>

datatype error = TypeError

text \<open>
  \<open>generateWords(length)\<close>. \<open>DICTIONARY\<close> is imported from \<open>dictionary.js\<close>; it is a
  parameter \<open>D\<close> of the model. The loop \<open>for (let i = 0; i < length; i++)\<close> carries the
  counter, the array built so far and the generator.
\<close>

partial_function (option) generateWords_loop ::
  "string list \<Rightarrow> jsnum \<Rightarrow> nat \<Rightarrow> string option list \<Rightarrow> numgen
     \<Rightarrow> (string option list \<times> numgen) option" where
  "generateWords_loop D len i words g =
     (if js_lt (Fin (real i)) len then
        (case generateNumber g of
           (v, g') \<Rightarrow>
             let index = clampRandom v (Fin 0) (Fin (real (length D) - 1))
             in generateWords_loop D len (Suc i) (words @ [array_get D index]) g')
      else Some (words, g))"

definition generateWords ::
  "string list \<Rightarrow> jsnum \<Rightarrow> numgen \<Rightarrow> (string option list \<times> numgen) option" where
  "generateWords D len g = generateWords_loop D len 0 [] g"

text \<open>A value inside a template literal, and an element under \<open>Array.join\<close>.\<close>

definition template_str :: "string option \<Rightarrow> string" where
  "template_str w = (case w of None \<Rightarrow> ''undefined'' | Some s \<Rightarrow> s)"

definition join_elem :: "string option \<Rightarrow> string" where
  "join_elem w = (case w of None \<Rightarrow> [] | Some s \<Rightarrow> s)"

definition commaFrequency :: real where
  "commaFrequency = 10"

text \<open>
  The inner loop of \<open>generateSentences\<close>, \<open>for (let j = 0; j < words.length; j++)\<close>:
  \<open>n\<close> is \<open>words.length\<close>, the list holds the words from position \<open>j\<close> on.
\<close>

fun sentence_loop ::
  "nat \<Rightarrow> nat \<Rightarrow> string option list \<Rightarrow> string \<Rightarrow> numgen \<Rightarrow> error + string \<times> numgen" where
  "sentence_loop n j [] sentence g = Inr (sentence, g)"
| "sentence_loop n j (word # rest) sentence g =
     (if j = 0 then
        (case word of
           None \<Rightarrow> Inl TypeError
         | Some w \<Rightarrow> sentence_loop n (Suc j) rest (sentence @ capitalize_first w) g)
      else if int j < int n - 3 then
        (case generateNumber g of
           (v, g') \<Rightarrow>
             let addComma = (clampRandom v (Fin 0) (Fin commaFrequency) = Fin 0)
             in sentence_loop n (Suc j) rest
                  ((if addComma then sentence @ '', '' else sentence) @ '' '' @ template_str word) g')
      else sentence_loop n (Suc j) rest (sentence @ '' '' @ template_str word) g)"

partial_function (option) generateSentences_loop ::
  "config \<Rightarrow> string list \<Rightarrow> jsnum \<Rightarrow> nat \<Rightarrow> string \<Rightarrow> numgen
     \<Rightarrow> (error + string \<times> numgen) option" where
  "generateSentences_loop cfg D numSentences i sentences g =
     (if js_lt (Fin (real i)) numSentences then
        (case getNumberWithinRange (wordsPerSentence cfg) g of
           (numWords, g1) \<Rightarrow>
             (case generateWords D numWords g1 of
                None \<Rightarrow> None
              | Some (words, g2) \<Rightarrow>
                  (case sentence_loop (length words) 0 words [] g2 of
                     Inl e \<Rightarrow> Some (Inl e)
                   | Inr (sentence, g3) \<Rightarrow>
                       generateSentences_loop cfg D numSentences (Suc i)
                         (sentences @ sentence @ ''. '') g3)))
      else Some (Inr (sentences, g)))"

definition generateSentences ::
  "config \<Rightarrow> string list \<Rightarrow> numgen \<Rightarrow> (error + string \<times> numgen) option" where
  "generateSentences cfg D g =
     (case getNumberWithinRange (length_p cfg) g of
        (numSentences, g0) \<Rightarrow>
          (case generateSentences_loop cfg D numSentences 0 [] g0 of
             None \<Rightarrow> None
           | Some (Inl e) \<Rightarrow> Some (Inl e)
           | Some (Inr (sentences, g')) \<Rightarrow> Some (Inr (trim sentences, g'))))"

partial_function (option) generateParagraphs_loop ::
  "config \<Rightarrow> string list \<Rightarrow> jsnum \<Rightarrow> nat \<Rightarrow> string \<Rightarrow> numgen
     \<Rightarrow> (error + string \<times> numgen) option" where
  "generateParagraphs_loop cfg D numParagraphs i paragraphs g =
     (if js_lt (Fin (real i)) numParagraphs then
        (case generateSentences cfg D g of
           None \<Rightarrow> None
         | Some (Inl e) \<Rightarrow> Some (Inl e)
         | Some (Inr (sentences, g1)) \<Rightarrow>
             generateParagraphs_loop cfg D numParagraphs (Suc i)
               (paragraphs @ ''<p>'' @ sentences @ ''</p>'') g1)
      else Some (Inr (paragraphs, g)))"

definition generateParagraphs ::
  "config \<Rightarrow> string list \<Rightarrow> numgen \<Rightarrow> (error + string \<times> numgen) option" where
  "generateParagraphs cfg D g =
     (case getNumberWithinRange (length_p cfg) g of
        (numParagraphs, g0) \<Rightarrow> generateParagraphs_loop cfg D numParagraphs 0 [] g0)"

text \<open>The loop \<open>for (const word of words)\<close> of \<open>generateTitle\<close>.\<close>

fun title_loop :: "string option list \<Rightarrow> string list \<Rightarrow> error + string list" where
  "title_loop [] title = Inr title"
| "title_loop (word # rest) title =
     (case word of
        None \<Rightarrow> Inl TypeError
      | Some w \<Rightarrow> title_loop rest (title @ [capitalize_first w]))"

definition generateTitle ::
  "config \<Rightarrow> string list \<Rightarrow> numgen \<Rightarrow> (error + string \<times> numgen) option" where
  "generateTitle cfg D g =
     (case getNumberWithinRange (length_p cfg) g of
        (numWords, g0) \<Rightarrow>
          (case generateWords D numWords g0 of
             None \<Rightarrow> None
           | Some (words, g1) \<Rightarrow>
               (case title_loop words [] of
                  Inl e \<Rightarrow> Some (Inl e)
                | Inr title \<Rightarrow> Some (Inr (join '' '' title, g1)))))"

text \<open>The string a value of \<open>type\<close> is.\<close>

fun shape_str :: "shape \<Rightarrow> string" where
  "shape_str Sentence = ''sentence''"
| "shape_str Title = ''title''"
| "shape_str Paragraph = ''paragraph''"
| "shape_str Dl = ''dl''"
| "shape_str Ol = ''ol''"
| "shape_str Ul = ''ul''"

partial_function (option) generateList_loop ::
  "config \<Rightarrow> string list \<Rightarrow> jsnum \<Rightarrow> nat \<Rightarrow> string \<Rightarrow> numgen
     \<Rightarrow> (error + string \<times> numgen) option" where
  "generateList_loop cfg D numItems i items g =
     (if js_lt (Fin (real i)) numItems then
        (case getNumberWithinRange (wordsPerSentence cfg) g of
           (numWords, g1) \<Rightarrow>
             (case generateWords D numWords g1 of
                None \<Rightarrow> None
              | Some (words, g2) \<Rightarrow>
                  let item = join '' '' (map join_elem words) in
                  if type cfg = Dl then
                    (case generateTitle cfg D g2 of
                       None \<Rightarrow> None
                     | Some (Inl e) \<Rightarrow> Some (Inl e)
                     | Some (Inr (t, g3)) \<Rightarrow>
                         generateList_loop cfg D numItems (Suc i)
                           (items @ ''<dt>'' @ t @ ''</dt><dd>'' @ capitalize_first item @ ''</dd>'')
                           g3)
                  else
                    generateList_loop cfg D numItems (Suc i)
                      (items @ ''<li>'' @ capitalize_first item @ ''</li>'') g2))
      else Some (Inr (items, g)))"

definition generateList ::
  "config \<Rightarrow> string list \<Rightarrow> numgen \<Rightarrow> (error + string \<times> numgen) option" where
  "generateList cfg D g =
     (case getNumberWithinRange (length_p cfg) g of
        (numItems, g0) \<Rightarrow>
          (case generateList_loop cfg D numItems 0 [] g0 of
             None \<Rightarrow> None
           | Some (Inl e) \<Rightarrow> Some (Inl e)
           | Some (Inr (items, g')) \<Rightarrow>
               Some (Inr (''<'' @ shape_str (type cfg) @ ''>'' @ items
                          @ ''</'' @ shape_str (type cfg) @ ''>'', g'))))"

text \<open>
  \<open>generateContent()\<close>: the generator is \<open>Math.random\<close> when \<open>seed\<close> is undefined and the
  seeded closure otherwise; \<open>entropy\<close> is what \<open>Math.random\<close> would return, call after
  call. The result is the content string.
\<close>

definition configureGenerator :: "config \<Rightarrow> (nat \<Rightarrow> real) \<Rightarrow> numgen" where
  "configureGenerator cfg entropy =
     (case seed cfg of None \<Rightarrow> MathRandom entropy 0 | Some s \<Rightarrow> Seeded s)"

definition generateContent ::
  "config \<Rightarrow> string list \<Rightarrow> (nat \<Rightarrow> real) \<Rightarrow> (error + string) option" where
  "generateContent cfg D entropy =
     (let g = configureGenerator cfg entropy
      in map_option (map_sum id fst)
           (case type cfg of
              Title \<Rightarrow> generateTitle cfg D g
            | Sentence \<Rightarrow> generateSentences cfg D g
            | Paragraph \<Rightarrow> generateParagraphs cfg D g
            | Ol \<Rightarrow> generateList cfg D g
            | Ul \<Rightarrow> generateList cfg D g
            | Dl \<Rightarrow> generateList cfg D g))"

section \<open>Notions used in the statements\<close>

text \<open>A size that is no range: a number, or a string without the separator \<open>-\<close>.\<close>

fun literal_spec :: "sizespec \<Rightarrow> bool" where
  "literal_spec (SNum x) = True"
| "literal_spec (SStr s) = (\<not> str_includes s CHR ''-'')"

text \<open>
  An entropy source given by the list of its first values (0 from then on), for
  concrete runs.
\<close>

definition seq :: "real list \<Rightarrow> nat \<Rightarrow> real" where
  "seq xs k = (if k < length xs then xs ! k else 0)"

text \<open>The decimal digits of a natural number, as the range format \<open>{min}-{max}\<close> writes it.\<close>

fun dec :: "nat \<Rightarrow> string" where
  "dec n = (if n < 10 then [char_of (48 + n)] else dec (n div 10) @ [char_of (48 + n mod 10)])"

declare dec.simps [simp del]


text \<open>
  A non-empty dictionary of non-empty words made of the letters \<open>a\<close> to \<open>z\<close>.
\<close>

definition lowercase_dict :: "string list \<Rightarrow> bool" where
  "lowercase_dict D = (D \<noteq> [] \<and> (\<forall>w\<in>set D. w \<noteq> [] \<and> (\<forall>c\<in>set w. is_lower c)))"

text \<open>
  A sentence of five dictionary words as \<open>generateSentences\<close> writes it: the first word
  capitalized, the second after a space or after a comma and two spaces, the others after a
  space, and a period at the end.
\<close>

definition five_word_sentence :: "string list \<Rightarrow> string \<Rightarrow> bool" where
  "five_word_sentence D s =
     (\<exists>w0\<in>set D. \<exists>w1\<in>set D. \<exists>w2\<in>set D. \<exists>w3\<in>set D. \<exists>w4\<in>set D.
        \<exists>sep\<in>{'' '', '',  ''}.
          s = capitalize_first w0 @ sep @ w1 @ '' '' @ w2 @ '' '' @ w3 @ '' '' @ w4 @ ''.'')"

text \<open>
  A size that resolves to a natural number at every generator within \<open>[0, 1)\<close>.
\<close>

definition count_spec :: "sizespec \<Rightarrow> bool" where
  "count_spec spec =
     (\<forall>g. unit_gen g \<longrightarrow> (\<exists>n. fst (getNumberWithinRange spec g) = Fin (real n)))"

text \<open>
  A term and its description as \<open>generateList\<close> writes them.
\<close>

definition dl_pair :: "string \<times> string \<Rightarrow> string" where
  "dl_pair p = ''<dt>'' @ fst p @ ''</dt><dd>'' @ snd p @ ''</dd>''"

text \<open>
  What \<open>generateTitle\<close> returns at some generator within \<open>[0, 1)\<close>: as many capitalized
  dictionary words as \<open>length\<close> resolves to there, joined by spaces, so that splitting
  the term at its spaces gives these words back.
\<close>

definition dl_term :: "config \<Rightarrow> string list \<Rightarrow> string \<Rightarrow> bool" where
  "dl_term cfg D t =
     (\<exists>g g' ks. unit_gen g \<and> generateTitle cfg D g = Some (Inr (t, g'))
        \<and> Fin (real (length ks)) = fst (getNumberWithinRange (length_p cfg) g)
        \<and> (\<forall>k\<in>set ks. k < length D)
        \<and> t = join '' '' (map (\<lambda>k. capitalize_first (D ! k)) ks)
        \<and> (ks \<noteq> [] \<longrightarrow> split_chr CHR '' '' t = map (\<lambda>k. capitalize_first (D ! k)) ks))"

text \<open>
  A run of dictionary words, as many as \<open>wordsPerSentence\<close> resolves to at some generator
  within \<open>[0, 1)\<close>, joined by spaces, its first letter capitalized: splitting the
  description at its spaces gives the first word capitalized and the other words as
  they are.
\<close>

definition dl_description :: "config \<Rightarrow> string list \<Rightarrow> string \<Rightarrow> bool" where
  "dl_description cfg D d =
     (\<exists>g ws. unit_gen g
        \<and> Fin (real (length ws)) = fst (getNumberWithinRange (wordsPerSentence cfg) g)
        \<and> set ws \<subseteq> set D
        \<and> d = capitalize_first (join '' '' ws)
        \<and> (ws \<noteq> [] \<longrightarrow> split_chr CHR '' '' d = capitalize_first (hd ws) # tl ws))"

text \<open>
  The dictionary index a draw selects.
\<close>

definition word_index :: "string list \<Rightarrow> jsnum \<Rightarrow> nat" where
  "word_index D v = (case v of Fin r \<Rightarrow> nat \<lfloor>r * real (length D)\<rfloor> | _ \<Rightarrow> 0)"

section \<open>Evaluation\<close>

text \<open>The equations that evaluate a run on concrete inputs.\<close>

lemmas number_eval = Number_def Number_opt_def trim_def is_ws_def non_decimal_def
  unsigned_decimal_def is_digit_def exponent_part_def digits_val_def digit_val_def all_digits_def
  str_includes_def or0_def

lemmas run_eval = seq_def clampRandom_def js_sub_def Let_def array_get_def
  generateWords_def generateWords_loop.simps template_str_def join_elem_def commaFrequency_def
  capitalize_first_def toUpperCase_chr_def is_lower_def char_of_eq_iff
  generateSentences_loop.simps generateSentences_def generateParagraphs_loop.simps
  generateParagraphs_def generateTitle_def generateList_loop.simps generateList_def
  generateContent_def configureGenerator_def default_config_def

section \<open>Numbers and generators\<close>

lemma clampRandom_Fin:
  "clampRandom (Fin v) (Fin a) (Fin b) = Fin (of_int \<lfloor>v * (b - a + 1)\<rfloor> + a)"
  by (simp add: clampRandom_def js_sub_def)

lemma generateNumber_seed0: "generateNumber (Seeded (Fin 0)) = (Fin 0, Seeded (Fin 0))"
  by (simp add: seeded_next_def js_sub_def Let_def)

lemma draws_seed0: "draws n (Seeded (Fin 0)) = replicate n (Fin 0)"
  by (induction n) (simp_all add: generateNumber_seed0 del: generateNumber.simps)

lemma advance_seed0: "advance n (Seeded (Fin 0)) = Seeded (Fin 0)"
  by (induction n) (simp_all add: generateNumber_seed0 del: generateNumber.simps)

text \<open>A generator within \<open>[0, 1)\<close> draws a number there and stays such a generator.\<close>

lemma advance_MathRandom: "advance n (MathRandom f k) = MathRandom f (k + n)"
  by (induction n arbitrary: k) simp_all

lemma unit_gen_MathRandom: "unit_gen (MathRandom f k) = (\<forall>n\<ge>k. 0 \<le> f n \<and> f n < 1)"
proof
  assume u: "unit_gen (MathRandom f k)"
  show "\<forall>n\<ge>k. 0 \<le> f n \<and> f n < 1"
  proof (intro allI impI)
    fix n assume "k \<le> n"
    then have "k + (n - k) = n" by simp
    with u[unfolded unit_gen_def, rule_format, of "n - k"] show "0 \<le> f n \<and> f n < 1"
      by (simp add: advance_MathRandom)
  qed
next
  assume "\<forall>n\<ge>k. 0 \<le> f n \<and> f n < 1"
  then show "unit_gen (MathRandom f k)"
    by (simp add: unit_gen_def advance_MathRandom)
qed

lemma seq_unit: "\<forall>x\<in>set xs. 0 \<le> x \<and> x < 1 \<Longrightarrow> 0 \<le> seq xs k \<and> seq xs k < 1"
  by (simp add: seq_def)

lemma unit_gen_seq: "\<forall>x\<in>set xs. 0 \<le> x \<and> x < 1 \<Longrightarrow> unit_gen (MathRandom (seq xs) k)"
  by (simp add: unit_gen_MathRandom seq_unit)

lemma unit_gen_seed0: "unit_gen (Seeded (Fin 0))"
  by (simp add: unit_gen_def advance_seed0 generateNumber_seed0 del: generateNumber.simps)

lemma unit_gen_step:
  assumes "unit_gen g"
  shows "\<exists>r g'. generateNumber g = (Fin r, g') \<and> 0 \<le> r \<and> r < 1 \<and> unit_gen g'"
proof -
  from assms[unfolded unit_gen_def, rule_format, of 0]
  obtain r where r: "fst (generateNumber g) = Fin r" "0 \<le> r" "r < 1"
    by (cases "fst (generateNumber g)") simp_all
  have "unit_gen (snd (generateNumber g))"
    unfolding unit_gen_def
  proof
    fix n
    from assms[unfolded unit_gen_def, rule_format, of "Suc n"]
    show "case fst (generateNumber (advance n (snd (generateNumber g)))) of
            Fin r \<Rightarrow> 0 \<le> r \<and> r < 1 | _ \<Rightarrow> False"
      by simp
  qed
  with r show ?thesis
    by (intro exI[of _ r] exI[of _ "snd (generateNumber g)"]) (simp add: prod_eq_iff)
qed

text \<open>The loop of \<open>generateWords\<close> with a finite count, in terms of the draws it makes.\<close>

lemma generateWords_loop_draws:
  "generateWords_loop D (Fin (real n)) i words g =
     Some (words @ map (\<lambda>v. array_get D (clampRandom v (Fin 0) (Fin (real (length D) - 1))))
                    (draws (n - i) g),
           advance (n - i) g)"
proof (induction "n - i" arbitrary: i words g)
  case 0
  then show ?case by (subst generateWords_loop.simps) simp
next
  case (Suc k)
  then have lt: "i < n" and k: "k = n - Suc i" by linarith+
  obtain v g' where gn: "generateNumber g = (v, g')" by (cases "generateNumber g")
  have d: "n - i = Suc (n - Suc i)" using lt by simp
  show ?case
    by (subst generateWords_loop.simps) (simp add: lt gn Suc.hyps(1)[OF k] d)
qed

section \<open>Size resolution\<close>

text \<open>
  C5, as amended. Resolving a bare number returns it unchanged, except that the falsy
  numbers \<open>NaN\<close> and \<open>0\<close> resolve to \<open>0\<close>; \<open>Infinity\<close> and \<open>-Infinity\<close> are truthy and are
  returned as they are. In particular the literal 7 resolves to 7 at every generator.
\<close>

theorem bare_number_resolution:
  "fst (getNumberWithinRange (SNum x) g) = (if x = NaN \<or> x = Fin 0 then Fin 0 else x)
   \<and> fst (getNumberWithinRange (SNum (Fin 7)) g) = Fin 7"
  by (cases x) (simp_all add: or0_def)

text \<open>
  C5, the claim as stated fails: the bare number \<open>Infinity\<close> resolves to \<open>Infinity\<close>,
  not to 0 (and \<open>-Infinity\<close> to \<open>-Infinity\<close>).
\<close>

theorem infinity_not_zero_counterexample:
  "fst (getNumberWithinRange (SNum PInf) (Seeded (Fin 0))) = PInf
   \<and> fst (getNumberWithinRange (SNum PInf) (Seeded (Fin 0))) \<noteq> Fin 0
   \<and> fst (getNumberWithinRange (SNum NInf) (Seeded (Fin 0))) = NInf"
  by (simp add: or0_def)

text \<open>
  C6. Resolving a literal size (a bare number, or a string without \<open>-\<close>) returns the
  generator it was given: no number is drawn, and the draws made afterwards are those
  that would have been made without the call.
\<close>

theorem literal_spec_keeps_generator:
  assumes "literal_spec spec"
  shows "snd (getNumberWithinRange spec g) = g
         \<and> draws n (snd (getNumberWithinRange spec g)) = draws n g"
  using assms by (cases spec) simp_all

theorem literal_spec_keeps_generator_witness:
  "literal_spec (SStr ''7'')
   \<and> snd (getNumberWithinRange (SStr ''7'') (MathRandom (\<lambda>k. 1 / 2) 0)) = MathRandom (\<lambda>k. 1 / 2) 0
   \<and> draws 2 (snd (getNumberWithinRange (SStr ''7'') (MathRandom (\<lambda>k. 1 / 2) 0)))
       = draws 2 (MathRandom (\<lambda>k. 1 / 2) 0)"
proof -
  have h: "literal_spec (SStr ''7'')" by (simp add: str_includes_def)
  show ?thesis
    using h literal_spec_keeps_generator [OF h, of "MathRandom (\<lambda>k. 1 / 2) 0" 2] by simp
qed

section \<open>Decimal range specifications\<close>

lemma digit_char: "k < 10 \<Longrightarrow> is_digit (char_of (48 + k)) \<and> digit_val (char_of (48 + k)) = k"
  by (simp add: is_digit_def digit_val_def Let_def)

lemma dec_digits: "c \<in> set (dec n) \<Longrightarrow> is_digit c"
proof (induction n arbitrary: c rule: dec.induct)
  case (1 n)
  show ?case
  proof (cases "n < 10")
    case True
    with "1.prems" show ?thesis by (subst (asm) dec.simps) (simp add: digit_char)
  next
    case False
    with "1.prems" "1.IH" show ?thesis
      by (subst (asm) dec.simps) (auto simp: digit_char)
  qed
qed

lemma dec_nonempty: "dec n \<noteq> []"
  by (subst dec.simps) simp

lemma digits_val_snoc: "digits_val b (s @ [c]) = b * digits_val b s + digit_val c"
  by (simp add: digits_val_def)

lemma digits_val_dec: "digits_val 10 (dec n) = n"
proof (induction n rule: dec.induct)
  case (1 n)
  show ?case
  proof (cases "n < 10")
    case True
    then show ?thesis by (subst dec.simps) (simp add: digits_val_def digit_char)
  next
    case False
    with "1.IH" show ?thesis
      by (subst dec.simps) (simp add: digits_val_snoc digit_char)
  qed
qed

lemma digit_not_special:
  assumes "is_digit c"
  shows "\<not> is_ws c" "c \<noteq> CHR ''-''" "c \<noteq> CHR ''+''" "c \<noteq> CHR ''.''" "c \<noteq> CHR ''I''"
    "c \<noteq> CHR ''x''" "c \<noteq> CHR ''X''" "c \<noteq> CHR ''o''" "c \<noteq> CHR ''O''" "c \<noteq> CHR ''b''" "c \<noteq> CHR ''B''"
  using assms by (auto simp: is_digit_def is_ws_def)

lemma trim_digits:
  assumes "\<forall>c\<in>set s. is_digit c"
  shows "trim s = s"
proof (cases "s = []")
  case True
  then show ?thesis by (simp add: trim_def)
next
  case False
  then have "\<not> is_ws (hd s)" "\<not> is_ws (last s)"
    using assms digit_not_special(1) by simp_all
  then have "dropWhile is_ws s = s" "dropWhile is_ws (rev s) = rev s"
    using False by (simp_all add: dropWhile_eq_self_iff hd_rev)
  then show ?thesis by (simp add: trim_def)
qed

lemma non_decimal_digits:
  assumes "\<forall>c\<in>set s. is_digit c"
  shows "non_decimal s = None"
proof (cases s)
  case Nil
  then show ?thesis by (simp add: non_decimal_def)
next
  case (Cons c0 r)
  show ?thesis
  proof (cases r)
    case Nil
    with Cons show ?thesis by (simp add: non_decimal_def)
  next
    case (Cons c1 r')
    with assms \<open>s = c0 # r\<close> have "is_digit c1" by simp
    from digit_not_special(6-11)[OF this] show ?thesis
      using Cons \<open>s = c0 # r\<close> by (simp add: non_decimal_def)
  qed
qed

lemma unsigned_decimal_digits:
  assumes "\<forall>c\<in>set s. is_digit c" "s \<noteq> []"
  shows "unsigned_decimal s = Fin (real (digits_val 10 s))"
proof -
  have "is_digit (hd s)" using assms by simp
  then have "hd s \<noteq> CHR ''I''" by (rule digit_not_special)
  then have ninf: "s \<noteq> ''Infinity''" by auto
  have tw: "takeWhile is_digit s = s" and dw: "dropWhile is_digit s = []"
    using assms by simp_all
  show ?thesis
    using ninf assms(2) by (simp add: unsigned_decimal_def tw dw exponent_part_def digits_val_def)
qed

lemma Number_digits:
  assumes "\<forall>c\<in>set s. is_digit c" "s \<noteq> []"
  shows "Number s = Fin (real (digits_val 10 s))"
proof -
  obtain c r where s: "s = c # r" using assms(2) by (cases s) auto
  then have "is_digit c" using assms(1) by simp
  from digit_not_special(2,3)[OF this] show ?thesis
    using assms s unsigned_decimal_digits[OF assms]
    by (simp add: Number_def trim_digits non_decimal_digits)
qed

lemma Number_dec: "Number (dec n) = Fin (real n)"
  using Number_digits[of "dec n"] dec_digits dec_nonempty by (simp add: digits_val_dec)

lemma split_chr_no_sep: "c \<notin> set s \<Longrightarrow> split_chr c s = [s]"
  by (induction s) auto

lemma split_chr_one_sep: "c \<notin> set xs \<Longrightarrow> split_chr c (xs @ c # ys) = xs # split_chr c ys"
  by (induction xs) auto

lemma dec_no_dash: "CHR ''-'' \<notin> set (dec n)"
  using dec_digits digit_not_special(2) by blast

lemma range_spec_parts:
  "split_chr CHR ''-'' (dec a @ CHR ''-'' # dec b) = [dec a, dec b]"
  by (simp add: split_chr_one_sep split_chr_no_sep dec_no_dash)

lemma or0_nat: "or0 (Fin (real n)) = Fin (real n)"
  by (simp add: or0_def)

lemma range_spec_resolution:
  "getNumberWithinRange (SStr (dec a @ CHR ''-'' # dec b)) g =
     (clampRandom (fst (generateNumber g)) (Fin (real a)) (Fin (real b)), snd (generateNumber g))"
  by (simp add: str_includes_def range_spec_parts Number_opt_def Number_dec or0_nat Let_def
      split: prod.splits)

lemma floor_unit_scale:
  fixes r :: real and m :: int
  assumes "0 \<le> r" "r < 1" "0 \<le> m"
  shows "0 \<le> \<lfloor>r * (of_int m + 1)\<rfloor>" "\<lfloor>r * (of_int m + 1)\<rfloor> \<le> m"
proof -
  have n: "(0::real) \<le> of_int m + 1" using assms(3) by simp
  have "0 \<le> r * (of_int m + 1)" using assms(1) n by simp
  then show "0 \<le> \<lfloor>r * (of_int m + 1)\<rfloor>" by simp
  have "r * (of_int m + 1) < 1 * (of_int m + 1)"
    using assms(2,3) by (intro mult_strict_right_mono) simp_all
  then have "r * (of_int m + 1) < of_int (m + 1)" by simp
  then have "\<lfloor>r * (of_int m + 1)\<rfloor> < m + 1" by (simp only: floor_less_iff)
  then show "\<lfloor>r * (of_int m + 1)\<rfloor> \<le> m" by simp
qed

lemma clampRandom_within:
  fixes lo hi :: int
  assumes "0 \<le> r" "r < 1" "lo \<le> hi"
  shows "\<exists>n. clampRandom (Fin r) (Fin (of_int lo)) (Fin (of_int hi)) = Fin (of_int n) \<and> lo \<le> n \<and> n \<le> hi"
proof -
  have e: "real_of_int hi - real_of_int lo + 1 = of_int (hi - lo) + 1" by simp
  have "0 \<le> \<lfloor>r * (of_int (hi - lo) + 1)\<rfloor>" "\<lfloor>r * (of_int (hi - lo) + 1)\<rfloor> \<le> hi - lo"
    using floor_unit_scale[OF assms(1,2), of "hi - lo"] assms(3) by simp_all
  then show ?thesis
    unfolding clampRandom_Fin e
    by (intro exI[of _ "\<lfloor>r * (of_int (hi - lo) + 1)\<rfloor> + lo"]) simp
qed

lemma clampRandom_endpoints:
  fixes lo hi :: int
  assumes "lo \<le> hi"
  shows "clampRandom (Fin 0) (Fin (of_int lo)) (Fin (of_int hi)) = Fin (of_int lo)"
    and "\<exists>r. 0 \<le> r \<and> r < 1 \<and> clampRandom (Fin r) (Fin (of_int lo)) (Fin (of_int hi)) = Fin (of_int hi)"
proof -
  show "clampRandom (Fin 0) (Fin (of_int lo)) (Fin (of_int hi)) = Fin (of_int lo)"
    by (simp add: clampRandom_Fin)
  define w :: real where "w = of_int (hi - lo) + 1"
  define r :: real where "r = (of_int (hi - lo) + 1 / 2) / w"
  have w: "0 < w" using assms by (simp add: w_def)
  have rw: "r * w = of_int (hi - lo) + 1 / 2" using w by (simp add: r_def)
  have "0 \<le> r" using assms w by (simp add: r_def)
  moreover have "r < 1" using w by (simp add: r_def w_def)
  moreover have "\<lfloor>r * w\<rfloor> = hi - lo" unfolding rw by linarith
  then have "clampRandom (Fin r) (Fin (of_int lo)) (Fin (of_int hi)) = Fin (of_int hi)"
    unfolding clampRandom_Fin using w_def by (simp add: algebra_simps)
  ultimately show "\<exists>r. 0 \<le> r \<and> r < 1 \<and> clampRandom (Fin r) (Fin (of_int lo)) (Fin (of_int hi)) = Fin (of_int hi)"
    by blast
qed

lemma nat_range_within:
  assumes "unit_gen g" "a \<le> b"
  shows "\<exists>n. fst (getNumberWithinRange (SStr (dec a @ ''-'' @ dec b)) g) = Fin (real n)
             \<and> a \<le> n \<and> n \<le> b"
proof -
  obtain v g' where gn: "generateNumber g = (Fin v, g')" and v: "0 \<le> v" "v < 1"
    using unit_gen_step[OF assms(1)] by blast
  obtain m where m: "clampRandom (Fin v) (Fin (of_int (int a))) (Fin (of_int (int b))) = Fin (of_int m)"
      "int a \<le> m" "m \<le> int b"
    using clampRandom_within[OF v, of "int a" "int b"] assms(2) by auto
  have "fst (getNumberWithinRange (SStr (dec a @ ''-'' @ dec b)) g) = Fin (real (nat m))"
    using m gn by (simp add: range_spec_resolution del: getNumberWithinRange.simps)
  moreover have "a \<le> nat m" "nat m \<le> b" using m by linarith+
  ultimately show ?thesis by blast
qed

text \<open>
  C3, as amended. For all natural numbers \<open>min \<le> max\<close> below \<open>2^53\<close> and every generator
  whose draws lie in \<open>[0, 1)\<close>, resolving the range \<open>{min}-{max}\<close>, bounds written in
  decimal, returns an integer \<open>n\<close> with \<open>min \<le> n \<le> max\<close>. The sampler itself,
  \<open>floor(v * (max - min + 1)) + min\<close>, stays within the closed range for all integers
  \<open>min \<le> max\<close> below \<open>2^52\<close> in absolute value, negative ones included, and reaches both
  ends.
\<close>

theorem range_resolution_within:
  assumes "unit_gen g" "a \<le> b" "b < 2 ^ 53"
    and "0 \<le> r" "r < 1" "lo \<le> hi" "- (2 ^ 52) < lo" "hi < 2 ^ 52"
  shows "(\<exists>n. fst (getNumberWithinRange (SStr (dec a @ ''-'' @ dec b)) g) = Fin (real n)
              \<and> a \<le> n \<and> n \<le> b)
       \<and> (\<exists>m. clampRandom (Fin r) (Fin (of_int lo)) (Fin (of_int hi)) = Fin (of_int m)
              \<and> lo \<le> m \<and> m \<le> hi)
       \<and> clampRandom (Fin 0) (Fin (of_int lo)) (Fin (of_int hi)) = Fin (of_int lo)
       \<and> (\<exists>r'. 0 \<le> r' \<and> r' < 1
              \<and> clampRandom (Fin r') (Fin (of_int lo)) (Fin (of_int hi)) = Fin (of_int hi))"
  using nat_range_within[OF assms(1,2)] clampRandom_within[OF assms(4,5,6)]
    clampRandom_endpoints[OF assms(6)]
  by blast

text \<open>The range \<open>3-5\<close> with \<open>Math.random\<close> returning 0.5: it resolves to 4.\<close>

theorem range_resolution_within_witness:
  "unit_gen (MathRandom (seq [1 / 2]) 0) \<and> (3::nat) \<le> 5 \<and> (5::nat) < 2 ^ 53
   \<and> (0::real) \<le> 1 / 2 \<and> (1 / 2 :: real) < 1
   \<and> (- 2 :: int) \<le> 4 \<and> - (2 ^ 52) < (- 2 :: int) \<and> (4 :: int) < 2 ^ 52
   \<and> dec 3 @ ''-'' @ dec 5 = ''3-5''
   \<and> fst (getNumberWithinRange (SStr ''3-5'') (MathRandom (seq [1 / 2]) 0)) = Fin 4
   \<and> (\<exists>n. fst (getNumberWithinRange (SStr (dec 3 @ ''-'' @ dec 5)) (MathRandom (seq [1 / 2]) 0))
             = Fin (real n)
           \<and> 3 \<le> n \<and> n \<le> 5)
   \<and> (\<exists>m. clampRandom (Fin (1 / 2)) (Fin (of_int (- 2))) (Fin (of_int 4)) = Fin (of_int m)
           \<and> - 2 \<le> m \<and> m \<le> 4)"
proof -
  have d: "dec 3 @ ''-'' @ dec 5 = ''3-5''" by (simp add: dec.simps char_of_eq_iff)
  have u: "unit_gen (MathRandom (seq [1 / 2]) 0)" by (simp add: unit_gen_seq)
  have e: "fst (getNumberWithinRange (SStr ''3-5'') (MathRandom (seq [1 / 2]) 0)) = Fin 4"
    by (simp add: number_eval run_eval)
  have b: "(3::nat) \<le> 5" "(5::nat) < 2 ^ 53" "(0::real) \<le> 1 / 2" "(1 / 2 :: real) < 1"
    "(- 2 :: int) \<le> 4" "- (2 ^ 52) < (- 2 :: int)" "(4 :: int) < 2 ^ 52"
    by simp_all
  show ?thesis
    using u b d e range_resolution_within [OF u b] by blast
qed

text \<open>
  C3, the claim as stated fails for negative bounds: in \<open>-1--1\<close>, the range from \<open>-1\<close> to
  \<open>-1\<close>, every \<open>-\<close> is a separator, the parts are \<open>''\<close>, \<open>1\<close>, \<open>''\<close>, \<open>1\<close>, the bounds read
  are 0 and 1, and the draw 0 resolves it to 0, outside \<open>[-1, -1]\<close>.
\<close>

theorem negative_range_counterexample:
  "unit_gen (Seeded (Fin 0))
   \<and> fst (getNumberWithinRange (SStr ''-1--1'') (Seeded (Fin 0))) = Fin 0
   \<and> fst (getNumberWithinRange (SStr ''-1--1'') (Seeded (Fin 0))) \<noteq> Fin (- 1)"
  by (simp add: unit_gen_seed0 number_eval clampRandom_def js_sub_def seeded_next_def Let_def)

section \<open>The seeded generator\<close>

lemma generateWords_seed0:
  "generateWords D (Fin (real n)) (Seeded (Fin 0)) =
     Some (replicate n (array_get D (Fin 0)), Seeded (Fin 0))"
  by (simp add: generateWords_def generateWords_loop_draws draws_seed0 advance_seed0
      clampRandom_Fin map_replicate_const)

text \<open>
  C10. The generator seeded with 0 returns 0 at every call and stays in the state 0; a
  run whose \<open>seed\<close> is 0 uses this generator. With it, a range whose bounds read as
  finite numbers resolves to its lower bound, and every word \<open>generateWords\<close> draws is
  the dictionary's entry at index 0.
\<close>

theorem seed_zero_fixed_point:
  assumes "str_includes s CHR ''-''"
    and "or0 (Number_opt (nth_opt (split_chr CHR ''-'' s) 0)) = Fin lo"
    and "or0 (Number_opt (nth_opt (split_chr CHR ''-'' s) 1)) = Fin hi"
  shows "draws n (Seeded (Fin 0)) = replicate n (Fin 0)
       \<and> advance n (Seeded (Fin 0)) = Seeded (Fin 0)
       \<and> configureGenerator (cfg\<lparr>seed := Some (Fin 0)\<rparr>) entropy = Seeded (Fin 0)
       \<and> getNumberWithinRange (SStr s) (Seeded (Fin 0)) = (Fin lo, Seeded (Fin 0))
       \<and> generateWords D (Fin (real n)) (Seeded (Fin 0))
           = Some (replicate n (array_get D (Fin 0)), Seeded (Fin 0))"
  using assms
  by (simp add: draws_seed0 advance_seed0 configureGenerator_def generateNumber_seed0
      generateWords_seed0 clampRandom_Fin Let_def del: generateNumber.simps)

theorem seed_zero_fixed_point_witness:
  "str_includes ''3-5'' CHR ''-''
   \<and> or0 (Number_opt (nth_opt (split_chr CHR ''-'' ''3-5'') 0)) = Fin 3
   \<and> or0 (Number_opt (nth_opt (split_chr CHR ''-'' ''3-5'') 1)) = Fin 5
   \<and> draws 2 (Seeded (Fin 0)) = [Fin 0, Fin 0]
   \<and> configureGenerator (default_config\<lparr>seed := Some (Fin 0)\<rparr>) (seq [1 / 2]) = Seeded (Fin 0)
   \<and> getNumberWithinRange (SStr ''3-5'') (Seeded (Fin 0)) = (Fin 3, Seeded (Fin 0))
   \<and> generateWords [''lorem'', ''ipsum''] (Fin (real 2)) (Seeded (Fin 0))
       = Some ([Some ''lorem'', Some ''lorem''], Seeded (Fin 0))"
proof -
  have h: "str_includes ''3-5'' CHR ''-''"
    "or0 (Number_opt (nth_opt (split_chr CHR ''-'' ''3-5'') 0)) = Fin 3"
    "or0 (Number_opt (nth_opt (split_chr CHR ''-'' ''3-5'') 1)) = Fin 5"
    by (simp_all add: str_includes_def Number_opt_def or0_def Number_def trim_def is_ws_def
        non_decimal_def unsigned_decimal_def is_digit_def exponent_part_def digits_val_def
        digit_val_def)
  have a: "array_get [''lorem'', ''ipsum''] (Fin 0) = Some ''lorem''"
    by (simp add: array_get_def)
  show ?thesis
    using h seed_zero_fixed_point [OF h, of 2 default_config "seq [1 / 2]" "[''lorem'', ''ipsum'']"] a
    by (simp add: numeral_2_eq_2 del: getNumberWithinRange.simps)
qed

section \<open>Determinism of a seeded run\<close>

text \<open>
  C2. When the configuration carries a seed, the output of \<open>generateContent\<close> does not
  depend on the entropy source: two runs with the same configuration, dictionary and
  seed return the same result whatever \<open>Math.random\<close> would have returned, and the
  generator they start from draws the same sequence of numbers.
\<close>

theorem seeded_run_deterministic:
  assumes "seed cfg = Some s"
  shows "generateContent cfg D entropy1 = generateContent cfg D entropy2
       \<and> draws n (configureGenerator cfg entropy1) = draws n (configureGenerator cfg entropy2)"
  using assms by (simp add: generateContent_def configureGenerator_def)

theorem seeded_run_deterministic_witness:
  "seed (default_config\<lparr>seed := Some (Fin 12345)\<rparr>) = Some (Fin 12345)
   \<and> generateContent (default_config\<lparr>seed := Some (Fin 12345)\<rparr>) [''lorem'', ''ipsum''] (seq [])
       = generateContent (default_config\<lparr>seed := Some (Fin 12345)\<rparr>) [''lorem'', ''ipsum'']
           (seq [1 / 2, 3 / 4])
   \<and> draws 3 (configureGenerator (default_config\<lparr>seed := Some (Fin 12345)\<rparr>) (seq []))
       = draws 3 (configureGenerator (default_config\<lparr>seed := Some (Fin 12345)\<rparr>)
           (seq [1 / 2, 3 / 4]))"
proof -
  have h: "seed (default_config\<lparr>seed := Some (Fin 12345)\<rparr>) = Some (Fin 12345)" by simp
  show ?thesis
    using h seeded_run_deterministic [OF h, of "[''lorem'', ''ipsum'']" "seq []" "seq [1 / 2, 3 / 4]" 3]
    by blast
qed

section \<open>Words, titles, sentences and lists\<close>

lemma unit_draws:
  assumes "unit_gen g"
  shows "(\<forall>v\<in>set (draws n g). \<exists>r. v = Fin r \<and> 0 \<le> r \<and> r < 1) \<and> unit_gen (advance n g)"
  using assms
proof (induction n arbitrary: g)
  case 0
  then show ?case by simp
next
  case (Suc n)
  obtain r g' where st: "generateNumber g = (Fin r, g')" "0 \<le> r" "r < 1" "unit_gen g'"
    using unit_gen_step[OF Suc.prems] by blast
  with Suc.IH[OF st(4)] show ?case by (simp del: generateNumber.simps)
qed

lemma unit_gen_resolve: "unit_gen g \<Longrightarrow> unit_gen (snd (getNumberWithinRange spec g))"
proof (cases spec)
  case (SNum x)
  assume "unit_gen g"
  with SNum show ?thesis by simp
next
  case (SStr s)
  assume u: "unit_gen g"
  obtain r g' where st: "generateNumber g = (Fin r, g')" "unit_gen g'"
    using unit_gen_step[OF u] by blast
  with u SStr show ?thesis by (simp add: Let_def del: generateNumber.simps)
qed

lemma dictionary_index:
  assumes "D \<noteq> []" "0 \<le> r" "r < 1"
  shows "array_get D (clampRandom (Fin r) (Fin 0) (Fin (real (length D) - 1)))
           = Some (D ! word_index D (Fin r))"
    and "word_index D (Fin r) < length D"
proof -
  have pos: "0 < length D" using assms(1) by simp
  have e: "real (length D) - 1 = of_int (int (length D) - 1)" by simp
  have b: "0 \<le> \<lfloor>r * (of_int (int (length D) - 1) + 1)\<rfloor>"
    "\<lfloor>r * (of_int (int (length D) - 1) + 1)\<rfloor> \<le> int (length D) - 1"
    using floor_unit_scale[OF assms(2,3), of "int (length D) - 1"] pos by simp_all
  have s: "of_int (int (length D) - 1) + 1 = real (length D)" by simp
  from b have b': "0 \<le> \<lfloor>r * real (length D)\<rfloor>" "\<lfloor>r * real (length D)\<rfloor> < int (length D)"
    unfolding s by simp_all
  then show "word_index D (Fin r) < length D" by (simp add: word_index_def nat_less_iff)
  from b' have "real_of_int \<lfloor>r * real (length D)\<rfloor> < real (length D)"
    by (metis of_int_less_iff of_int_of_nat_eq)
  with b' show "array_get D (clampRandom (Fin r) (Fin 0) (Fin (real (length D) - 1)))
           = Some (D ! word_index D (Fin r))"
    by (simp add: clampRandom_Fin array_get_def word_index_def)
qed

lemma generateWords_unit:
  assumes "unit_gen g" "D \<noteq> []"
  shows "\<exists>ks. generateWords D (Fin (real n)) g = Some (map (\<lambda>k. Some (D ! k)) ks, advance n g)
           \<and> length ks = n \<and> (\<forall>k\<in>set ks. k < length D)"
proof -
  have u: "\<forall>v\<in>set (draws n g). \<exists>r. v = Fin r \<and> 0 \<le> r \<and> r < 1"
    using unit_draws[OF assms(1)] by blast
  have m: "map (\<lambda>v. array_get D (clampRandom v (Fin 0) (Fin (real (length D) - 1)))) (draws n g)
         = map (\<lambda>k. Some (D ! k)) (map (word_index D) (draws n g))"
    using u dictionary_index(1)[OF assms(2)] by (auto simp: map_eq_conv)
  have i: "\<forall>k\<in>set (map (word_index D) (draws n g)). k < length D"
    using u dictionary_index(2)[OF assms(2)] by auto
  have l: "length (draws n g) = n" by (induction n arbitrary: g) (simp_all split: prod.splits)
  show ?thesis
    using m i l generateWords_loop_draws[of D n 0 "[]" g]
    by (intro exI[of _ "map (word_index D) (draws n g)"]) (simp add: generateWords_def)
qed

lemma title_loop_words: "title_loop (map Some ws) acc = Inr (acc @ map capitalize_first ws)"
  by (induction ws arbitrary: acc) simp_all

lemma upper_of_lower:
  assumes "is_lower c"
  shows "is_upper (toUpperCase_chr c)"
proof -
  define n :: nat where "n = of_char c"
  have n: "97 \<le> n" "n \<le> 122" using assms by (simp_all add: is_lower_def n_def)
  then have "(n - 32) mod 256 = n - 32" by simp
  then have "(of_char (char_of (n - 32)) :: nat) = n - 32" by simp
  moreover have "65 \<le> n - 32" "n - 32 \<le> 90" using n by arith+
  ultimately have "is_upper (char_of (n - 32))" by (simp add: is_upper_def)
  then show ?thesis using assms by (simp add: toUpperCase_chr_def n_def)
qed

lemma capitalize_first_word:
  assumes "w \<noteq> []" "\<forall>c\<in>set w. is_lower c"
  shows "capitalize_first w = toUpperCase_chr (hd w) # tl w"
    and "capitalize_first w \<noteq> []"
    and "is_upper (hd (capitalize_first w))"
    and "\<forall>c\<in>set (tl (capitalize_first w)). is_lower c"
proof -
  obtain c r where w: "w = c # r" using assms(1) by (cases w) auto
  show 1: "capitalize_first w = toUpperCase_chr (hd w) # tl w" using w by (simp add: capitalize_first_def)
  show "capitalize_first w \<noteq> []" using 1 by simp
  show "is_upper (hd (capitalize_first w))" using 1 w assms(2) upper_of_lower by simp
  show "\<forall>c\<in>set (tl (capitalize_first w)). is_lower c" using 1 w assms(2) by simp
qed

lemma letters_not_special:
  "is_lower c \<Longrightarrow> c \<noteq> CHR '' '' \<and> c \<noteq> CHR '','' \<and> c \<noteq> CHR ''.'' \<and> \<not> is_ws c"
  "is_upper c \<Longrightarrow> c \<noteq> CHR '' '' \<and> c \<noteq> CHR '','' \<and> c \<noteq> CHR ''.'' \<and> \<not> is_ws c"
  by (auto simp: is_lower_def is_upper_def is_ws_def)

lemma split_join_words:
  assumes "ws \<noteq> []" "\<forall>w\<in>set ws. CHR '' '' \<notin> set w"
  shows "split_chr CHR '' '' (join '' '' ws) = ws"
  using assms
proof (induction "'' ''" ws rule: join.induct)
  case 1
  then show ?case by simp
next
  case (2 w)
  then show ?case by (simp add: split_chr_no_sep)
next
  case (3 w v ws)
  then show ?case by (simp add: split_chr_one_sep)
qed

lemma lowercase_lorem_ipsum: "lowercase_dict [''lorem'', ''ipsum'']"
  by (simp add: lowercase_dict_def is_lower_def)

lemma generateTitle_unit:
  assumes "unit_gen g" "D \<noteq> []" "fst (getNumberWithinRange (length_p cfg) g) = Fin (real n)"
  shows "\<exists>ks g'. generateTitle cfg D g
             = Some (Inr (join '' '' (map (\<lambda>k. capitalize_first (D ! k)) ks), g'))
           \<and> length ks = n \<and> (\<forall>k\<in>set ks. k < length D) \<and> unit_gen g'"
proof -
  define g0 where "g0 = snd (getNumberWithinRange (length_p cfg) g)"
  have r: "getNumberWithinRange (length_p cfg) g = (Fin (real n), g0)"
    using assms(3) by (simp add: g0_def prod_eq_iff)
  have u0: "unit_gen g0" unfolding g0_def by (rule unit_gen_resolve[OF assms(1)])
  obtain ks where ks: "generateWords D (Fin (real n)) g0 = Some (map (\<lambda>k. Some (D ! k)) ks, advance n g0)"
      "length ks = n" "\<forall>k\<in>set ks. k < length D"
    using generateWords_unit[OF u0 assms(2), of n] by blast
  have t: "title_loop (map (\<lambda>k. Some (D ! k)) ks) [] = Inr (map (\<lambda>k. capitalize_first (D ! k)) ks)"
    using title_loop_words[of "map ((!) D) ks" "[]"] by (simp add: comp_def)
  have "generateTitle cfg D g
          = Some (Inr (join '' '' (map (\<lambda>k. capitalize_first (D ! k)) ks), advance n g0))"
    by (simp add: generateTitle_def r ks(1) t)
  then show ?thesis using ks(2,3) unit_draws[OF u0, of n] by blast
qed

text \<open>
  C7. For \<open>type = title\<close> and \<open>length = 3\<close>, over a non-empty dictionary of lower-case
  words and with draws in \<open>[0, 1)\<close>, the output is three words joined by single spaces
  (splitting it at the spaces gives exactly these three words); each is the dictionary
  word at an index below \<open>DICTIONARY.length\<close> with its first letter put in upper case,
  so each starts with an upper-case letter.
\<close>

theorem title_of_three_words:
  assumes "type cfg = Title" "length_p cfg = SNum (Fin 3)" "lowercase_dict D"
    and "unit_gen (configureGenerator cfg entropy)"
  shows "\<exists>ks. length ks = 3 \<and> (\<forall>k\<in>set ks. k < length D)
           \<and> generateContent cfg D entropy
               = Some (Inr (join '' '' (map (\<lambda>k. capitalize_first (D ! k)) ks)))
           \<and> split_chr CHR '' '' (join '' '' (map (\<lambda>k. capitalize_first (D ! k)) ks))
               = map (\<lambda>k. capitalize_first (D ! k)) ks
           \<and> (\<forall>w\<in>set (map (\<lambda>k. capitalize_first (D ! k)) ks). w \<noteq> [] \<and> is_upper (hd w))"
proof -
  define g where "g = configureGenerator cfg entropy"
  have D: "D \<noteq> []" and W: "\<And>w. w \<in> set D \<Longrightarrow> w \<noteq> [] \<and> (\<forall>c\<in>set w. is_lower c)"
    using assms(3) by (auto simp: lowercase_dict_def)
  have n: "fst (getNumberWithinRange (length_p cfg) g) = Fin (real 3)"
    by (simp add: assms(2) or0_def)
  obtain ks g' where ks:
      "generateTitle cfg D g = Some (Inr (join '' '' (map (\<lambda>k. capitalize_first (D ! k)) ks), g'))"
      "length ks = 3" "\<forall>k\<in>set ks. k < length D"
    using generateTitle_unit[OF assms(4)[folded g_def] D n] by blast
  let ?ws = "map (\<lambda>k. capitalize_first (D ! k)) ks"
  have mem: "\<And>k. k \<in> set ks \<Longrightarrow> D ! k \<in> set D" using ks(3) by simp
  have shape: "\<forall>w\<in>set ?ws. w \<noteq> [] \<and> is_upper (hd w) \<and> CHR '' '' \<notin> set w"
  proof
    fix w assume "w \<in> set ?ws"
    then obtain k where k: "k \<in> set ks" "w = capitalize_first (D ! k)" by auto
    have lw: "D ! k \<noteq> []" "\<forall>c\<in>set (D ! k). is_lower c" using W[OF mem[OF k(1)]] by simp_all
    note c = capitalize_first_word[OF lw]
    have "w = hd w # tl w" using c(2) k(2) by simp
    then have "set w = insert (hd w) (set (tl w))" by (metis list.simps(15))
    moreover have "hd w \<noteq> CHR '' ''" using c(3) k(2) letters_not_special(2) by blast
    moreover have "\<forall>c\<in>set (tl w). c \<noteq> CHR '' ''" using c(4) k(2) letters_not_special(1) by blast
    ultimately have "CHR '' '' \<notin> set w" by auto
    then show "w \<noteq> [] \<and> is_upper (hd w) \<and> CHR '' '' \<notin> set w" using c(2,3) k(2) by simp
  qed
  have ne: "?ws \<noteq> []" using ks(2) by auto
  have sp: "split_chr CHR '' '' (join '' '' ?ws) = ?ws"
    using split_join_words[OF ne] shape by blast
  have out: "generateContent cfg D entropy = Some (Inr (join '' '' ?ws))"
    using ks(1) by (simp add: generateContent_def assms(1) g_def)
  show ?thesis using ks(2,3) out sp shape by blast
qed

text \<open>The dictionary \<open>lorem, ipsum\<close> with \<open>Math.random\<close> returning 0, 0.5, 0.\<close>

theorem title_of_three_words_witness:
  "type (default_config\<lparr>type := Title, length_p := SNum (Fin 3)\<rparr>) = Title
   \<and> length_p (default_config\<lparr>type := Title, length_p := SNum (Fin 3)\<rparr>) = SNum (Fin 3)
   \<and> lowercase_dict [''lorem'', ''ipsum'']
   \<and> unit_gen (configureGenerator (default_config\<lparr>type := Title, length_p := SNum (Fin 3)\<rparr>)
        (seq [0, 1 / 2, 0]))
   \<and> generateContent (default_config\<lparr>type := Title, length_p := SNum (Fin 3)\<rparr>)
        [''lorem'', ''ipsum''] (seq [0, 1 / 2, 0]) = Some (Inr ''Lorem Ipsum Lorem'')
   \<and> (\<exists>ks. length ks = 3 \<and> (\<forall>k\<in>set ks. k < length [''lorem'', ''ipsum''])
           \<and> generateContent (default_config\<lparr>type := Title, length_p := SNum (Fin 3)\<rparr>)
                [''lorem'', ''ipsum''] (seq [0, 1 / 2, 0])
               = Some (Inr (join '' '' (map (\<lambda>k. capitalize_first ([''lorem'', ''ipsum''] ! k)) ks)))
           \<and> split_chr CHR '' '' (join '' '' (map (\<lambda>k. capitalize_first ([''lorem'', ''ipsum''] ! k)) ks))
               = map (\<lambda>k. capitalize_first ([''lorem'', ''ipsum''] ! k)) ks
           \<and> (\<forall>w\<in>set (map (\<lambda>k. capitalize_first ([''lorem'', ''ipsum''] ! k)) ks).
                 w \<noteq> [] \<and> is_upper (hd w)))"
proof -
  let ?c = "default_config\<lparr>type := Title, length_p := SNum (Fin 3)\<rparr>"
  have h1: "type ?c = Title" and h2: "length_p ?c = SNum (Fin 3)" by simp_all
  have h4: "unit_gen (configureGenerator ?c (seq [0, 1 / 2, 0]))"
    by (simp add: configureGenerator_def default_config_def unit_gen_seq)
  have e: "generateContent ?c [''lorem'', ''ipsum''] (seq [0, 1 / 2, 0]) = Some (Inr ''Lorem Ipsum Lorem'')"
    by (simp add: number_eval run_eval)
  show ?thesis
    using h1 h2 lowercase_lorem_ipsum h4 e
      title_of_three_words [OF h1 h2 lowercase_lorem_ipsum h4]
    by blast
qed

lemma resolve_5_5:
  assumes "unit_gen g"
  shows "getNumberWithinRange (SStr ''5-5'') g = (Fin (real 5), snd (generateNumber g))"
proof -
  obtain r g' where st: "generateNumber g = (Fin r, g')" "0 \<le> r" "r < 1"
    using unit_gen_step[OF assms] by blast
  have "\<lfloor>r\<rfloor> = 0" using st(2,3) by linarith
  then show ?thesis
    using st(1) by (simp add: number_eval Let_def clampRandom_Fin del: generateNumber.simps)
qed

lemma sentence_loop_five:
  "sentence_loop 5 0 [Some w0, Some w1, Some w2, Some w3, Some w4] [] g =
     Inr (capitalize_first w0
            @ (if clampRandom (fst (generateNumber g)) (Fin 0) (Fin commaFrequency) = Fin 0
               then '', '' else [])
            @ '' '' @ w1 @ '' '' @ w2 @ '' '' @ w3 @ '' '' @ w4,
          snd (generateNumber g))"
  by (simp add: template_str_def Let_def split: prod.splits del: generateNumber.simps)

lemma list_of_five:
  assumes "length ks = 5"
  shows "\<exists>a b c d e. ks = [a, b, c, d, e]"
proof -
  from assms have "length ks = Suc (Suc (Suc (Suc (Suc 0))))" by simp
  then show ?thesis by (auto simp: length_Suc_conv)
qed

lemma sentences_step:
  assumes "unit_gen g" "lowercase_dict D" "wordsPerSentence cfg = SStr ''5-5''" "i < n"
  shows "\<exists>s g'. five_word_sentence D s \<and> unit_gen g'
           \<and> (\<forall>acc. generateSentences_loop cfg D (Fin (real n)) i acc g
                      = generateSentences_loop cfg D (Fin (real n)) (Suc i) (acc @ s @ '' '') g')"
proof -
  have D: "D \<noteq> []" using assms(2) by (simp add: lowercase_dict_def)
  define g1 where "g1 = snd (generateNumber g)"
  have r: "getNumberWithinRange (wordsPerSentence cfg) g = (Fin (real 5), g1)"
    using resolve_5_5[OF assms(1)] by (simp add: assms(3) g1_def del: getNumberWithinRange.simps)
  have u1: "unit_gen g1" using unit_gen_step[OF assms(1)] by (auto simp: g1_def)
  define g2 where "g2 = advance 5 g1"
  have u2: "unit_gen g2" using unit_draws[OF u1, of 5] by (simp add: g2_def)
  obtain ks where ks: "generateWords D (Fin (real 5)) g1 = Some (map (\<lambda>k. Some (D ! k)) ks, g2)"
      "length ks = 5" "\<forall>k\<in>set ks. k < length D"
    using generateWords_unit[OF u1 D, of 5] unfolding g2_def by blast
  have ks5: "generateWords D (Fin 5) g1 = Some (map (\<lambda>k. Some (D ! k)) ks, g2)"
    using ks(1) by simp
  obtain a b c d e where abc: "ks = [a, b, c, d, e]" using list_of_five[OF ks(2)] by blast
  define g3 where "g3 = snd (generateNumber g2)"
  have u3: "unit_gen g3" using unit_gen_step[OF u2] by (auto simp: g3_def)
  define sep where "sep = (if clampRandom (fst (generateNumber g2)) (Fin 0) (Fin commaFrequency) = Fin 0
               then '', '' else []) @ '' ''"
  define sentence where
    "sentence = capitalize_first (D ! a) @ sep @ D ! b @ '' '' @ D ! c @ '' '' @ D ! d @ '' '' @ D ! e"
  have sl: "sentence_loop 5 0 (map (\<lambda>k. Some (D ! k)) ks) [] g2 = Inr (sentence, g3)"
    unfolding abc
    by (simp add: sentence_loop_five sentence_def sep_def g3_def
        del: sentence_loop.simps generateNumber.simps)
  have mem: "D ! a \<in> set D" "D ! b \<in> set D" "D ! c \<in> set D" "D ! d \<in> set D" "D ! e \<in> set D"
    using ks(3) abc by simp_all
  have sepm: "sep \<in> {'' '', '',  ''}" by (simp add: sep_def)
  have five: "five_word_sentence D (sentence @ ''.'')"
    unfolding five_word_sentence_def
  proof (intro bexI)
    show "sentence @ ''.''
            = capitalize_first (D ! a) @ sep @ D ! b @ '' '' @ D ! c @ '' '' @ D ! d @ '' '' @ D ! e @ ''.''"
      by (simp add: sentence_def)
  qed (rule mem sepm)+
  have step: "generateSentences_loop cfg D (Fin (real n)) i acc g
        = generateSentences_loop cfg D (Fin (real n)) (Suc i) (acc @ (sentence @ ''.'') @ '' '') g3" for acc
    by (subst generateSentences_loop.simps)
       (simp add: assms(4) r ks5 ks(2) sl
          del: sentence_loop.simps generateNumber.simps getNumberWithinRange.simps)
  show ?thesis using five u3 step by blast
qed

lemma sentences_loop_unit:
  assumes "unit_gen g" "lowercase_dict D" "wordsPerSentence cfg = SStr ''5-5''"
  shows "\<exists>sents g'. generateSentences_loop cfg D (Fin (real n)) i acc g
             = Some (Inr (acc @ concat (map (\<lambda>s. s @ '' '') sents), g'))
           \<and> length sents = n - i \<and> (\<forall>s\<in>set sents. five_word_sentence D s) \<and> unit_gen g'"
  using assms(1)
proof (induction "n - i" arbitrary: i acc g)
  case 0
  then have "\<not> i < n" by simp
  then have "generateSentences_loop cfg D (Fin (real n)) i acc g = Some (Inr (acc, g))"
    by (subst generateSentences_loop.simps) simp
  with 0 show ?case by (intro exI[of _ "[]"] exI[of _ g]) simp
next
  case (Suc k)
  then have lt: "i < n" and k: "k = n - Suc i" by linarith+
  obtain s g1 where st: "five_word_sentence D s" "unit_gen g1"
      "\<And>acc. generateSentences_loop cfg D (Fin (real n)) i acc g
                      = generateSentences_loop cfg D (Fin (real n)) (Suc i) (acc @ s @ '' '') g1"
    using sentences_step[OF Suc.prems assms(2,3) lt] by blast
  obtain sents g' where r: "generateSentences_loop cfg D (Fin (real n)) (Suc i) (acc @ s @ '' '') g1
             = Some (Inr ((acc @ s @ '' '') @ concat (map (\<lambda>s. s @ '' '') sents), g'))"
      "length sents = n - Suc i" "\<forall>s\<in>set sents. five_word_sentence D s" "unit_gen g'"
    using Suc.hyps(1)[OF k st(2), of "acc @ s @ '' ''"] by blast
  show ?case
    using st(1,3) r lt by (intro exI[of _ "s # sents"] exI[of _ g']) simp
qed

lemma concat_spaced: "sents \<noteq> [] \<Longrightarrow> concat (map (\<lambda>s. s @ '' '') sents) = join '' '' sents @ '' ''"
  by (induction "'' ''" sents rule: join.induct) simp_all

lemma join_ends:
  assumes "sents \<noteq> []" "\<forall>s\<in>set sents. s \<noteq> []"
  shows "join sep sents \<noteq> [] \<and> hd (join sep sents) = hd (hd sents)
         \<and> last (join sep sents) = last (last sents)"
  using assms by (induction sep sents rule: join.induct) (simp_all add: hd_append)

lemma trim_trailing_space:
  assumes "x \<noteq> []" "\<not> is_ws (hd x)" "\<not> is_ws (last x)"
  shows "trim (x @ '' '') = x"
proof -
  have 1: "dropWhile is_ws (x @ '' '') = x @ '' ''"
    using assms(1,2) by (simp add: dropWhile_eq_self_iff hd_append)
  have 2: "dropWhile is_ws (rev x) = rev x"
    using assms(1,3) by (simp add: dropWhile_eq_self_iff hd_rev)
  show ?thesis by (simp add: trim_def 1 2 is_ws_def[of "CHR '' ''"])
qed

lemma five_word_sentence_ends:
  assumes "lowercase_dict D" "five_word_sentence D s"
  shows "s \<noteq> [] \<and> is_upper (hd s) \<and> last s = CHR ''.''"
proof -
  from assms(2) obtain w0 r where s: "s = capitalize_first w0 @ r @ ''.''" "w0 \<in> set D"
    unfolding five_word_sentence_def by (metis append.assoc)
  have lw: "w0 \<noteq> []" "\<forall>c\<in>set w0. is_lower c" using assms(1) s(2) by (auto simp: lowercase_dict_def)
  note c = capitalize_first_word[OF lw]
  show ?thesis using s(1) c(2,3) by (simp add: hd_append)
qed

lemma sentences_general:
  assumes "type cfg = Sentence" "wordsPerSentence cfg = SStr ''5-5''" "lowercase_dict D"
    and "unit_gen (configureGenerator cfg entropy)"
    and "fst (getNumberWithinRange (length_p cfg) (configureGenerator cfg entropy)) = Fin (real n)"
  shows "\<exists>sents. generateContent cfg D entropy = Some (Inr (join '' '' sents))
           \<and> length sents = n
           \<and> (\<forall>s\<in>set sents. five_word_sentence D s \<and> is_upper (hd s) \<and> last s = CHR ''.'')"
proof -
  define g where "g = configureGenerator cfg entropy"
  define g0 where "g0 = snd (getNumberWithinRange (length_p cfg) g)"
  have r: "getNumberWithinRange (length_p cfg) g = (Fin (real n), g0)"
    using assms(5) by (simp add: g0_def g_def prod_eq_iff)
  have u0: "unit_gen g0" unfolding g0_def by (rule unit_gen_resolve[OF assms(4)[folded g_def]])
  obtain sents g' where l: "generateSentences_loop cfg D (Fin (real n)) 0 [] g0
             = Some (Inr ([] @ concat (map (\<lambda>s. s @ '' '') sents), g'))"
      "length sents = n - 0" "\<forall>s\<in>set sents. five_word_sentence D s"
    using sentences_loop_unit[OF u0 assms(3,2), of n 0 "[]"] by blast
  have e: "\<forall>s\<in>set sents. s \<noteq> [] \<and> is_upper (hd s) \<and> last s = CHR ''.''"
    using l(3) five_word_sentence_ends[OF assms(3)] by blast
  have t: "trim (concat (map (\<lambda>s. s @ '' '') sents)) = join '' '' sents"
  proof (cases "sents = []")
    case True
    then show ?thesis by (simp add: trim_def)
  next
    case False
    have ne: "\<forall>s\<in>set sents. s \<noteq> []" using e by blast
    note j = join_ends[OF False ne, of "'' ''"]
    have "is_upper (hd (hd sents))" "last (last sents) = CHR ''.''" using e False by simp_all
    then have h: "\<not> is_ws (hd (join '' '' sents))" "\<not> is_ws (last (join '' '' sents))"
      using j letters_not_special(2) by (simp_all add: is_ws_def)
    have x: "join '' '' sents \<noteq> []" using j by simp
    show ?thesis
      unfolding concat_spaced[OF False] by (rule trim_trailing_space[OF x h])
  qed
  have "generateContent cfg D entropy = Some (Inr (join '' '' sents))"
    using l(1) t r by (simp add: generateContent_def assms(1) generateSentences_def g_def
        del: getNumberWithinRange.simps)
  then show ?thesis using l(2) l(3) e by auto
qed

text \<open>
  C8, as amended. For \<open>type = sentence\<close> and \<open>wordsPerSentence = "5-5"\<close>, the other
  properties at their defaults, \<open>length\<close> (by default \<open>"3-5"\<close>) is the number of sentences:
  the output is 3 to 5 sentences joined by single spaces, each of exactly five
  dictionary words, starting with an upper-case letter and ending in a period. It is a
  single such sentence when \<open>length\<close> is 1.
\<close>

theorem sentence_shape:
  assumes "lowercase_dict D" "\<forall>k. 0 \<le> entropy k \<and> entropy k < 1"
  shows "(\<exists>sents. generateContent
                    (default_config\<lparr>type := Sentence, wordsPerSentence := SStr ''5-5''\<rparr>) D entropy
                  = Some (Inr (join '' '' sents))
              \<and> 3 \<le> length sents \<and> length sents \<le> 5
              \<and> (\<forall>s\<in>set sents. five_word_sentence D s \<and> is_upper (hd s) \<and> last s = CHR ''.''))
       \<and> (\<exists>s. generateContent
                  (default_config\<lparr>type := Sentence, length_p := SNum (Fin 1),
                     wordsPerSentence := SStr ''5-5''\<rparr>) D entropy
                = Some (Inr s)
              \<and> five_word_sentence D s \<and> is_upper (hd s) \<and> last s = CHR ''.'')"
proof -
  let ?c = "default_config\<lparr>type := Sentence, wordsPerSentence := SStr ''5-5''\<rparr>"
  let ?c1 = "default_config\<lparr>type := Sentence, length_p := SNum (Fin 1),
                     wordsPerSentence := SStr ''5-5''\<rparr>"
  have u: "unit_gen (configureGenerator ?c entropy)" "unit_gen (configureGenerator ?c1 entropy)"
    using assms(2) by (simp_all add: configureGenerator_def default_config_def unit_gen_MathRandom)
  have d: "dec 3 = ''3''" "dec 5 = ''5''" by (simp_all add: dec.simps char_of_eq_iff)
  obtain n where n: "fst (getNumberWithinRange (SStr (dec 3 @ ''-'' @ dec 5))
                        (configureGenerator ?c entropy)) = Fin (real n)" "3 \<le> n" "n \<le> 5"
    using nat_range_within[OF u(1), of 3 5] by auto
  have n': "fst (getNumberWithinRange (length_p ?c) (configureGenerator ?c entropy)) = Fin (real n)"
    using n(1) by (simp add: d default_config_def del: getNumberWithinRange.simps)
  have 1: "fst (getNumberWithinRange (length_p ?c1) (configureGenerator ?c1 entropy)) = Fin (real 1)"
    by (simp add: or0_def)
  obtain sents where a: "generateContent ?c D entropy = Some (Inr (join '' '' sents))"
      "length sents = n"
      "\<forall>s\<in>set sents. five_word_sentence D s \<and> is_upper (hd s) \<and> last s = CHR ''.''"
    using sentences_general[OF _ _ assms(1) u(1) n'] by auto
  obtain sents1 where b: "generateContent ?c1 D entropy = Some (Inr (join '' '' sents1))"
      "length sents1 = 1"
      "\<forall>s\<in>set sents1. five_word_sentence D s \<and> is_upper (hd s) \<and> last s = CHR ''.''"
    using sentences_general[OF _ _ assms(1) u(2) 1] by auto
  obtain s where s: "sents1 = [s]" using b(2) by (auto simp: length_Suc_conv)
  have A: "\<exists>sents. generateContent ?c D entropy = Some (Inr (join '' '' sents))
              \<and> 3 \<le> length sents \<and> length sents \<le> 5
              \<and> (\<forall>s\<in>set sents. five_word_sentence D s \<and> is_upper (hd s) \<and> last s = CHR ''.'')"
    using a n(2,3) by blast
  have B: "\<exists>s. generateContent ?c1 D entropy = Some (Inr s)
              \<and> five_word_sentence D s \<and> is_upper (hd s) \<and> last s = CHR ''.''"
    using b(1,3) s by auto
  show ?thesis using A B by blast
qed

theorem sentence_shape_witness:
  "lowercase_dict [''lorem'', ''ipsum'']
   \<and> (\<forall>k. 0 \<le> seq [0, 1 / 2] k \<and> seq [0, 1 / 2] k < 1)
   \<and> (\<exists>sents. generateContent
                    (default_config\<lparr>type := Sentence, wordsPerSentence := SStr ''5-5''\<rparr>)
                    [''lorem'', ''ipsum''] (seq [0, 1 / 2])
                  = Some (Inr (join '' '' sents))
              \<and> 3 \<le> length sents \<and> length sents \<le> 5
              \<and> (\<forall>s\<in>set sents. five_word_sentence [''lorem'', ''ipsum''] s
                    \<and> is_upper (hd s) \<and> last s = CHR ''.''))
   \<and> (\<exists>s. generateContent
                  (default_config\<lparr>type := Sentence, length_p := SNum (Fin 1),
                     wordsPerSentence := SStr ''5-5''\<rparr>) [''lorem'', ''ipsum''] (seq [0, 1 / 2])
                = Some (Inr s)
              \<and> five_word_sentence [''lorem'', ''ipsum''] s \<and> is_upper (hd s) \<and> last s = CHR ''.'')"
proof -
  have h: "\<forall>k. 0 \<le> seq [0, 1 / 2] k \<and> seq [0, 1 / 2] k < 1"
    by (simp add: seq_unit)
  show ?thesis
    using lowercase_lorem_ipsum h sentence_shape [OF lowercase_lorem_ipsum h] by blast
qed

text \<open>
  C8, the claim as stated fails: with the other properties at their defaults the output
  is not a single sentence. Here \<open>length = "3-5"\<close> resolves to 3 and the output holds
  three sentences.
\<close>

theorem single_sentence_counterexample:
  "generateContent (default_config\<lparr>type := Sentence, wordsPerSentence := SStr ''5-5''\<rparr>)
     [''lorem'', ''ipsum'']
     (seq [0, 0, 0, 1 / 2, 0, 1 / 2, 0, 1 / 2, 0, 1 / 2, 0, 0, 0, 0, 1 / 2, 0, 0, 0, 1 / 2, 0, 0, 1 / 2])
   = Some (Inr (''Lorem ipsum lorem ipsum lorem. Ipsum lorem lorem lorem lorem. ''
                @ ''Lorem lorem ipsum lorem lorem.''))
   \<and> length (filter (\<lambda>c. c = CHR ''.'')
        (''Lorem ipsum lorem ipsum lorem. Ipsum lorem lorem lorem lorem. ''
          @ ''Lorem lorem ipsum lorem lorem.'')) = 3"
  by (simp add: number_eval run_eval)

lemma join_chars:
  assumes "\<forall>w\<in>set ws. \<forall>c\<in>set w. is_lower c"
  shows "\<forall>c\<in>set (join '' '' ws). is_lower c \<or> c = CHR '' ''"
  using assms by (induction "'' ''" ws rule: join.induct) auto

lemma description_chars:
  assumes "lowercase_dict D" "set ws \<subseteq> set D"
  shows "CHR '','' \<notin> set (capitalize_first (join '' '' ws))"
    and "CHR ''.'' \<notin> set (capitalize_first (join '' '' ws))"
    and "\<forall>c\<in>set (tl (capitalize_first (join '' '' ws))). is_lower c \<or> c = CHR '' ''"
    and "capitalize_first (join '' '' ws) \<noteq> [] \<longrightarrow> is_upper (hd (capitalize_first (join '' '' ws)))"
proof -
  define x where "x = join '' '' ws"
  have lw: "\<forall>w\<in>set ws. w \<noteq> [] \<and> (\<forall>c\<in>set w. is_lower c)"
    using assms by (auto simp: lowercase_dict_def)
  then have xc: "\<forall>c\<in>set x. is_lower c \<or> c = CHR '' ''" unfolding x_def using join_chars by blast
  show "capitalize_first (join '' '' ws) \<noteq> [] \<longrightarrow> is_upper (hd (capitalize_first (join '' '' ws)))"
  proof
    assume "capitalize_first (join '' '' ws) \<noteq> []"
    then have ne: "ws \<noteq> []" by (auto simp: capitalize_first_def)
    then have "hd (join '' '' ws) = hd (hd ws)" "join '' '' ws \<noteq> []"
      using join_ends[OF ne, of "'' ''"] lw by simp_all
    moreover have "is_lower (hd (hd ws))" using ne lw by (metis hd_in_set)
    ultimately show "is_upper (hd (capitalize_first (join '' '' ws)))"
      using upper_of_lower by (cases "join '' '' ws") (simp_all add: capitalize_first_def)
  qed
  have d: "capitalize_first x = (case x of [] \<Rightarrow> [] | c # r \<Rightarrow> toUpperCase_chr c # r)"
    by (cases x) (simp_all add: capitalize_first_def)
  have dc: "\<forall>c\<in>set (capitalize_first x). is_upper c \<or> is_lower c \<or> c = CHR '' ''"
  proof (cases x)
    case Nil
    then show ?thesis by (simp add: capitalize_first_def)
  next
    case (Cons c r)
    have "is_upper (toUpperCase_chr c) \<or> toUpperCase_chr c = CHR '' ''"
      using xc Cons upper_of_lower[of c] by (auto simp: toUpperCase_chr_def)
    moreover have "capitalize_first x = toUpperCase_chr c # r"
      by (simp add: Cons capitalize_first_def)
    ultimately show ?thesis using xc Cons by auto
  qed
  show "CHR '','' \<notin> set (capitalize_first (join '' '' ws))"
    using dc letters_not_special unfolding x_def by fastforce
  show "CHR ''.'' \<notin> set (capitalize_first (join '' '' ws))"
    using dc letters_not_special unfolding x_def by fastforce
  show "\<forall>c\<in>set (tl (capitalize_first (join '' '' ws))). is_lower c \<or> c = CHR '' ''"
    using xc unfolding x_def[symmetric] d by (cases x) auto
qed

lemma capitalized_word:
  assumes "lowercase_dict D" "w \<in> set D"
  shows "capitalize_first w \<noteq> [] \<and> is_upper (hd (capitalize_first w))
         \<and> CHR '' '' \<notin> set (capitalize_first w) \<and> CHR '' '' \<notin> set w \<and> w \<noteq> []"
proof -
  have lw: "w \<noteq> []" "\<forall>c\<in>set w. is_lower c" using assms by (auto simp: lowercase_dict_def)
  note c = capitalize_first_word[OF lw]
  define x where "x = capitalize_first w"
  have "x = hd x # tl x" using c(2) by (simp add: x_def)
  then have "set x = insert (hd x) (set (tl x))" by (metis list.simps(15))
  moreover have "hd x \<noteq> CHR '' ''" using c(3) letters_not_special(2) unfolding x_def by blast
  moreover have "\<forall>c\<in>set (tl x). c \<noteq> CHR '' ''"
    using c(4) letters_not_special(1) unfolding x_def by blast
  ultimately have "CHR '' '' \<notin> set x" by auto
  moreover have "CHR '' '' \<notin> set w" using lw(2) letters_not_special(1) by blast
  ultimately show ?thesis using c(2,3) lw(1) by (simp add: x_def)
qed

lemma capitalize_first_join:
  assumes "w \<noteq> []"
  shows "capitalize_first (join sep (w # rest)) = join sep (capitalize_first w # rest)"
proof -
  obtain c r where w: "w = c # r" using assms by (cases w) auto
  show ?thesis by (cases rest) (simp_all add: w capitalize_first_def)
qed

lemma split_title:
  assumes "lowercase_dict D" "\<forall>k\<in>set ks. k < length D" "ks \<noteq> []"
  shows "split_chr CHR '' '' (join '' '' (map (\<lambda>k. capitalize_first (D ! k)) ks))
           = map (\<lambda>k. capitalize_first (D ! k)) ks"
proof -
  have "\<forall>w\<in>set (map (\<lambda>k. capitalize_first (D ! k)) ks). CHR '' '' \<notin> set w"
    using assms(2) capitalized_word[OF assms(1)] by auto
  moreover have "map (\<lambda>k. capitalize_first (D ! k)) ks \<noteq> []" using assms(3) by simp
  ultimately show ?thesis using split_join_words by blast
qed

lemma split_description:
  assumes "lowercase_dict D" "set ws \<subseteq> set D" "ws \<noteq> []"
  shows "split_chr CHR '' '' (capitalize_first (join '' '' ws)) = capitalize_first (hd ws) # tl ws"
proof -
  obtain w rest where ws: "ws = w # rest" using assms(3) by (cases ws) auto
  have w: "w \<in> set D" and rest: "set rest \<subseteq> set D" using assms(2) ws by auto
  note c = capitalized_word[OF assms(1) w]
  have "\<forall>v\<in>set (capitalize_first w # rest). CHR '' '' \<notin> set v"
    using c rest capitalized_word[OF assms(1)] by auto
  then have "split_chr CHR '' '' (join '' '' (capitalize_first w # rest)) = capitalize_first w # rest"
    using split_join_words[of "capitalize_first w # rest"] by blast
  then show ?thesis using c by (simp add: ws capitalize_first_join)
qed

lemma count_spec_nat: "count_spec (SNum (Fin (real n)))"
  by (simp add: count_spec_def or0_nat)

lemma list_step:
  assumes "unit_gen g" "lowercase_dict D" "type cfg = Dl"
    and "count_spec (length_p cfg)" "count_spec (wordsPerSentence cfg)" "i < n"
  shows "\<exists>t d g'. dl_term cfg D t \<and> dl_description cfg D d \<and> unit_gen g'
           \<and> (\<forall>acc. generateList_loop cfg D (Fin (real n)) i acc g
                      = generateList_loop cfg D (Fin (real n)) (Suc i) (acc @ dl_pair (t, d)) g')"
proof -
  have D: "D \<noteq> []" using assms(2) by (simp add: lowercase_dict_def)
  obtain m where m: "fst (getNumberWithinRange (wordsPerSentence cfg) g) = Fin (real m)"
    using assms(1,5) by (auto simp: count_spec_def)
  define g1 where "g1 = snd (getNumberWithinRange (wordsPerSentence cfg) g)"
  have r: "getNumberWithinRange (wordsPerSentence cfg) g = (Fin (real m), g1)"
    using m by (simp add: g1_def prod_eq_iff)
  have u1: "unit_gen g1" unfolding g1_def by (rule unit_gen_resolve[OF assms(1)])
  define g2 where "g2 = advance m g1"
  have u2: "unit_gen g2" using unit_draws[OF u1, of m] by (simp add: g2_def)
  obtain ks where ks: "generateWords D (Fin (real m)) g1 = Some (map (\<lambda>k. Some (D ! k)) ks, g2)"
      "length ks = m" "\<forall>k\<in>set ks. k < length D"
    using generateWords_unit[OF u1 D, of m] unfolding g2_def by blast
  define ws where "ws = map ((!) D) ks"
  have item: "join '' '' (map (join_elem \<circ> (\<lambda>k. Some (D ! k))) ks) = join '' '' ws"
    by (simp add: ws_def join_elem_def comp_def)
  have wsD: "set ws \<subseteq> set D" using ks(3) by (auto simp: ws_def)
  obtain n' where n': "fst (getNumberWithinRange (length_p cfg) g2) = Fin (real n')"
    using u2 assms(4) by (auto simp: count_spec_def)
  obtain js g3 where t: "generateTitle cfg D g2
             = Some (Inr (join '' '' (map (\<lambda>k. capitalize_first (D ! k)) js), g3))"
      "length js = n'" "\<forall>k\<in>set js. k < length D" "unit_gen g3"
    using generateTitle_unit[OF u2 D n'] by blast
  define t where "t = join '' '' (map (\<lambda>k. capitalize_first (D ! k)) js)"
  define d where "d = capitalize_first (join '' '' ws)"
  have tm: "dl_term cfg D t"
    unfolding dl_term_def
    using u2 t(1,3) n' t(2) split_title[OF assms(2) t(3)]
    by (intro exI[of _ g2] exI[of _ g3] exI[of _ js]) (simp add: t_def)
  have desc: "dl_description cfg D d"
    unfolding dl_description_def
    using assms(1) m ks(2) wsD split_description[OF assms(2) wsD]
    by (intro exI[of _ g] exI[of _ ws]) (simp add: d_def ws_def)
  have step: "generateList_loop cfg D (Fin (real n)) i acc g
        = generateList_loop cfg D (Fin (real n)) (Suc i) (acc @ dl_pair (t, d)) g3" for acc
    by (subst generateList_loop.simps)
       (simp add: assms(3,6) r ks(1) item t(1) t_def d_def dl_pair_def Let_def
          del: getNumberWithinRange.simps)
  show ?thesis using tm desc t(4) step by blast
qed

lemma list_loop_unit:
  assumes "unit_gen g" "lowercase_dict D" "type cfg = Dl"
    and "count_spec (length_p cfg)" "count_spec (wordsPerSentence cfg)"
  shows "\<exists>pairs g'. generateList_loop cfg D (Fin (real n)) i acc g
             = Some (Inr (acc @ concat (map dl_pair pairs), g'))
           \<and> length pairs = n - i
           \<and> (\<forall>p\<in>set pairs. dl_term cfg D (fst p) \<and> dl_description cfg D (snd p))"
  using assms(1)
proof (induction "n - i" arbitrary: i acc g)
  case 0
  then have "\<not> i < n" by simp
  then have "generateList_loop cfg D (Fin (real n)) i acc g = Some (Inr (acc, g))"
    by (subst generateList_loop.simps) simp
  with 0 show ?case by (intro exI[of _ "[]"] exI[of _ g]) simp
next
  case (Suc k)
  then have lt: "i < n" and k: "k = n - Suc i" by linarith+
  obtain t d g1 where st: "dl_term cfg D t" "dl_description cfg D d" "unit_gen g1"
      "\<And>acc. generateList_loop cfg D (Fin (real n)) i acc g
                = generateList_loop cfg D (Fin (real n)) (Suc i) (acc @ dl_pair (t, d)) g1"
    using list_step[OF Suc.prems assms(2,3,4,5) lt] by blast
  obtain pairs g' where r: "generateList_loop cfg D (Fin (real n)) (Suc i) (acc @ dl_pair (t, d)) g1
             = Some (Inr ((acc @ dl_pair (t, d)) @ concat (map dl_pair pairs), g'))"
      "length pairs = n - Suc i"
      "\<forall>p\<in>set pairs. dl_term cfg D (fst p) \<and> dl_description cfg D (snd p)"
    using Suc.hyps(1)[OF k st(3), of "acc @ dl_pair (t, d)"] by blast
  show ?case
    using st(1,2,4) r lt by (intro exI[of _ "(t, d) # pairs"] exI[of _ g']) simp
qed

text \<open>
  C9. For \<open>type = dl\<close>, over a non-empty dictionary of lower-case words, with draws in
  \<open>[0, 1)\<close> and sizes that resolve to natural numbers, the output is \<open><dl>\<close>, as many
  pairs \<open><dt>term</dt><dd>description</dd>\<close> as \<open>length\<close> resolves to, and \<open></dl>\<close>.
  Each term is a result of \<open>generateTitle\<close> under the same configuration, so its word
  count is \<open>length\<close> resolved again; each description is a run of as many dictionary
  words as \<open>wordsPerSentence\<close> resolves to, joined by spaces, with its first letter in
  upper case and otherwise only lower-case letters and spaces: no comma and no period.
\<close>

theorem definition_list_shape:
  assumes "type cfg = Dl" "lowercase_dict D" "unit_gen (configureGenerator cfg entropy)"
    and "count_spec (length_p cfg)" "count_spec (wordsPerSentence cfg)"
  shows "\<exists>pairs. generateContent cfg D entropy
             = Some (Inr (''<dl>'' @ concat (map dl_pair pairs) @ ''</dl>''))
           \<and> Fin (real (length pairs))
               = fst (getNumberWithinRange (length_p cfg) (configureGenerator cfg entropy))
           \<and> (\<forall>p\<in>set pairs.
                 dl_term cfg D (fst p) \<and> dl_description cfg D (snd p)
                 \<and> CHR '','' \<notin> set (snd p) \<and> CHR ''.'' \<notin> set (snd p)
                 \<and> (\<forall>c\<in>set (tl (snd p)). is_lower c \<or> c = CHR '' '')
                 \<and> (snd p \<noteq> [] \<longrightarrow> is_upper (hd (snd p))))"
proof -
  define g where "g = configureGenerator cfg entropy"
  have u: "unit_gen g" using assms(3) by (simp add: g_def)
  obtain n where n: "fst (getNumberWithinRange (length_p cfg) g) = Fin (real n)"
    using u assms(4) by (auto simp: count_spec_def)
  define g0 where "g0 = snd (getNumberWithinRange (length_p cfg) g)"
  have r: "getNumberWithinRange (length_p cfg) g = (Fin (real n), g0)"
    using n by (simp add: g0_def prod_eq_iff)
  have u0: "unit_gen g0" unfolding g0_def by (rule unit_gen_resolve[OF u])
  obtain pairs g' where l: "generateList_loop cfg D (Fin (real n)) 0 [] g0
             = Some (Inr ([] @ concat (map dl_pair pairs), g'))"
      "length pairs = n - 0"
      "\<forall>p\<in>set pairs. dl_term cfg D (fst p) \<and> dl_description cfg D (snd p)"
    using list_loop_unit[OF u0 assms(2,1,4,5), of n 0 "[]"] by blast
  have out: "generateContent cfg D entropy
               = Some (Inr (''<dl>'' @ concat (map dl_pair pairs) @ ''</dl>''))"
    using l(1) r by (simp add: generateContent_def assms(1) generateList_def g_def[symmetric]
        del: getNumberWithinRange.simps)
  have len: "Fin (real (length pairs)) = fst (getNumberWithinRange (length_p cfg) g)"
    using l(2) n by simp
  have chars: "CHR '','' \<notin> set (snd p) \<and> CHR ''.'' \<notin> set (snd p)
                 \<and> (\<forall>c\<in>set (tl (snd p)). is_lower c \<or> c = CHR '' '')
                 \<and> (snd p \<noteq> [] \<longrightarrow> is_upper (hd (snd p)))" if "p \<in> set pairs" for p
  proof -
    from l(3) that have "dl_description cfg D (snd p)" by blast
    then obtain ws where ws: "set ws \<subseteq> set D" "snd p = capitalize_first (join '' '' ws)"
      unfolding dl_description_def by blast
    show ?thesis unfolding ws(2) using description_chars[OF assms(2) ws(1)] by blast
  qed
  show ?thesis
    using out len l(3) chars unfolding g_def by (intro exI[of _ pairs]) blast
qed

text \<open>
  Two items with descriptions of three words, the dictionary \<open>lorem, ipsum\<close> and
  \<open>Math.random\<close> returning 0, 0.5, 0, 0.5, 0, \<dots>: each item draws its three description
  words and then the two words of its term.
\<close>

theorem definition_list_shape_witness:
  "type (default_config\<lparr>type := Dl, length_p := SNum (Fin 2),
           wordsPerSentence := SNum (Fin 3)\<rparr>) = Dl
   \<and> lowercase_dict [''lorem'', ''ipsum'']
   \<and> unit_gen (configureGenerator
        (default_config\<lparr>type := Dl, length_p := SNum (Fin 2), wordsPerSentence := SNum (Fin 3)\<rparr>)
        (seq [0, 1 / 2, 0, 1 / 2]))
   \<and> count_spec (length_p
        (default_config\<lparr>type := Dl, length_p := SNum (Fin 2), wordsPerSentence := SNum (Fin 3)\<rparr>))
   \<and> count_spec (wordsPerSentence
        (default_config\<lparr>type := Dl, length_p := SNum (Fin 2), wordsPerSentence := SNum (Fin 3)\<rparr>))
   \<and> generateContent
        (default_config\<lparr>type := Dl, length_p := SNum (Fin 2), wordsPerSentence := SNum (Fin 3)\<rparr>)
        [''lorem'', ''ipsum''] (seq [0, 1 / 2, 0, 1 / 2])
      = Some (Inr (''<dl><dt>Ipsum Lorem</dt><dd>Lorem ipsum lorem</dd>''
                   @ ''<dt>Lorem Lorem</dt><dd>Lorem lorem lorem</dd></dl>''))
   \<and> (\<exists>pairs. generateContent
          (default_config\<lparr>type := Dl, length_p := SNum (Fin 2), wordsPerSentence := SNum (Fin 3)\<rparr>)
          [''lorem'', ''ipsum''] (seq [0, 1 / 2, 0, 1 / 2])
             = Some (Inr (''<dl>'' @ concat (map dl_pair pairs) @ ''</dl>''))
           \<and> Fin (real (length pairs))
               = fst (getNumberWithinRange (length_p
                   (default_config\<lparr>type := Dl, length_p := SNum (Fin 2),
                      wordsPerSentence := SNum (Fin 3)\<rparr>))
                   (configureGenerator
                     (default_config\<lparr>type := Dl, length_p := SNum (Fin 2),
                        wordsPerSentence := SNum (Fin 3)\<rparr>) (seq [0, 1 / 2, 0, 1 / 2])))
           \<and> (\<forall>p\<in>set pairs.
                 dl_term (default_config\<lparr>type := Dl, length_p := SNum (Fin 2),
                            wordsPerSentence := SNum (Fin 3)\<rparr>) [''lorem'', ''ipsum''] (fst p)
                 \<and> dl_description (default_config\<lparr>type := Dl, length_p := SNum (Fin 2),
                            wordsPerSentence := SNum (Fin 3)\<rparr>) [''lorem'', ''ipsum''] (snd p)
                 \<and> CHR '','' \<notin> set (snd p) \<and> CHR ''.'' \<notin> set (snd p)
                 \<and> (\<forall>c\<in>set (tl (snd p)). is_lower c \<or> c = CHR '' '')
                 \<and> (snd p \<noteq> [] \<longrightarrow> is_upper (hd (snd p)))))"
proof -
  let ?c = "default_config\<lparr>type := Dl, length_p := SNum (Fin 2), wordsPerSentence := SNum (Fin 3)\<rparr>"
  have h1: "type ?c = Dl" by simp
  have h3: "unit_gen (configureGenerator ?c (seq [0, 1 / 2, 0, 1 / 2]))"
    by (simp add: configureGenerator_def default_config_def unit_gen_seq)
  have h4: "count_spec (length_p ?c)"
    using count_spec_nat[of 2] by simp
  have h5: "count_spec (wordsPerSentence ?c)"
    using count_spec_nat[of 3] by simp
  have e: "generateContent ?c [''lorem'', ''ipsum''] (seq [0, 1 / 2, 0, 1 / 2])
      = Some (Inr (''<dl><dt>Ipsum Lorem</dt><dd>Lorem ipsum lorem</dd>''
                   @ ''<dt>Lorem Lorem</dt><dd>Lorem lorem lorem</dd></dl>''))"
    by (simp add: number_eval run_eval)
  show ?thesis
    using h1 lowercase_lorem_ipsum h3 h4 h5 e
      definition_list_shape [OF h1 lowercase_lorem_ipsum h3 h4 h5]
    by blast
qed

section \<open>Concrete runs\<close>

text \<open>
  C1, the code at \<open>type = paragraph\<close>, \<open>length = "2-2"\<close>, \<open>sentencesPerParagraph = "1-1"\<close>
  (the other properties at their defaults, \<open>Math.random\<close> returning
  0, 0, 0, 0, 0.5, 0, 0.5, 0, \<dots>): the output has two paragraphs, and each of them holds
  two sentences, not one. \<open>generateSentences\<close> resolves \<open>length\<close> again for the number
  of sentences; \<open>sentencesPerParagraph\<close> is read nowhere.
\<close>

theorem paragraph_ignores_sentencesPerParagraph:
  "generateContent
     (default_config\<lparr>type := Paragraph, length_p := SStr ''2-2'',
        sentencesPerParagraph := SStr ''1-1''\<rparr>)
     [''lorem'', ''ipsum''] (seq [0, 0, 0, 0, 1 / 2, 0, 1 / 2])
   = Some (Inr (''<p>Lorem ipsum lorem ipsum. Lorem lorem lorem lorem.</p>''
              @ ''<p>Lorem lorem lorem lorem. Lorem lorem lorem lorem.</p>''))"
  by (simp add: number_eval run_eval)

text \<open>
  C4, the code on one sentence of five words, where the word at position 1 is the only
  one that gets a comma draw (the sixth number drawn). With the draw 0 the output has a
  comma followed by two spaces before that word: the comma-space is added in front of
  the plain space, not instead of it. With the draw 0.095, which is below 1/10, no
  comma is inserted: the draw is mapped to \<open>floor(v * 11)\<close>, one of eleven values, and
  the comma needs the value 0. Among the draws \<open>v\<close> in \<open>[0, 1)\<close>, those that insert a comma
  are exactly those below 1/11.
\<close>

theorem comma_draw_at_concrete_inputs:
  "generateContent
     (default_config\<lparr>type := Sentence, length_p := SNum (Fin 1),
        wordsPerSentence := SNum (Fin 5)\<rparr>)
     [''lorem'', ''ipsum''] (seq [0, 1 / 2, 0, 0, 0, 0])
   = Some (Inr ''Lorem,  ipsum lorem lorem lorem.'')
   \<and> generateContent
     (default_config\<lparr>type := Sentence, length_p := SNum (Fin 1),
        wordsPerSentence := SNum (Fin 5)\<rparr>)
     [''lorem'', ''ipsum''] (seq [0, 1 / 2, 0, 0, 0, 19 / 200])
   = Some (Inr ''Lorem ipsum lorem lorem lorem.'')
   \<and> (0 \<le> v \<and> v < 1 \<and> clampRandom (Fin v) (Fin 0) (Fin commaFrequency) = Fin 0)
       = (0 \<le> v \<and> v < 1 / 11)"
proof -
  have t: "(0 \<le> v \<and> v < 1 \<and> clampRandom (Fin v) (Fin 0) (Fin commaFrequency) = Fin 0)
             = (0 \<le> v \<and> v < 1 / 11)"
  proof -
    have "(\<lfloor>v * 11\<rfloor> = 0) = (0 \<le> v \<and> v < 1 / 11)"
      unfolding floor_eq_iff by auto
    then show ?thesis
      by (auto simp: clampRandom_Fin commaFrequency_def)
  qed
  have a: "generateContent
     (default_config\<lparr>type := Sentence, length_p := SNum (Fin 1),
        wordsPerSentence := SNum (Fin 5)\<rparr>)
     [''lorem'', ''ipsum''] (seq [0, 1 / 2, 0, 0, 0, 0])
   = Some (Inr ''Lorem,  ipsum lorem lorem lorem.'')"
    by (simp add: number_eval run_eval)
  have b: "generateContent
     (default_config\<lparr>type := Sentence, length_p := SNum (Fin 1),
        wordsPerSentence := SNum (Fin 5)\<rparr>)
     [''lorem'', ''ipsum''] (seq [0, 1 / 2, 0, 0, 0, 19 / 200])
   = Some (Inr ''Lorem ipsum lorem lorem lorem.'')"
    by (simp add: number_eval run_eval)
  show ?thesis
    by (intro conjI) (rule a b t)+
qed

end
